theory Spec2Isabelle
  imports Main
begin

section \<open>The channel pool of \<^verbatim>\<open>channel.go\<close>\<close>

text \<open>
  The pool keeps idle resources in a buffered Go channel and calls three behaviours of the
  host application: \<^verbatim>\<open>Factory\<close> builds a resource, \<^verbatim>\<open>Close\<close> destroys one,
  \<^verbatim>\<open>Alive\<close> is stored in the configuration and never called.

  The model is sequential: one operation runs to its end before the next begins, so the
  mutex \<^verbatim>\<open>mu\<close> has no effect and is left out. Every operation takes the pool and the
  world and returns its outcome with the pool and the world it leaves behind. A behaviour of
  the host is a function on the host's state; it returns normally and does not call back
  into the pool. Go's \<^verbatim>\<open>int\<close>, \<^verbatim>\<open>time.Time\<close> and \<^verbatim>\<open>time.Duration\<close> are integers
  here (the code does no arithmetic on them that could overflow besides \<^verbatim>\<open>t.Add\<close>).
\<close>

subsection \<open>Values\<close>

type_synonym time = int
type_synonym duration = int

text \<open>
  An \<^verbatim>\<open>error\<close> value: the package variable \<^verbatim>\<open>ErrClose\<close>, an error the pool builds
  with \<^verbatim>\<open>errors.New\<close>, or an error of the host application.
\<close>

datatype error = ErrClose | errors_New string | HostError string

text \<open>
  An \<^verbatim>\<open>interface{}\<close> value is \<^verbatim>\<open>nil\<close>, a resource of the host, or a pointer to an
  \<^verbatim>\<open>idleConn\<close> (the pool hands such pointers to the destroy behaviour). An
  \<^verbatim>\<open>idleConn\<close> holds the stored value and the time it was stored.
\<close>

datatype 'r iface = nil | Val 'r | idleConn_ptr "'r idleConn"
  and 'r idleConn = idleConn (conn: "'r iface") (t: time)

text \<open>How an operation ends: it returns, it panics, or it blocks for ever.\<close>

datatype 'a outcome = Returns 'a | Panics string | Blocks

definition nil_func_call :: string where
  "nil_func_call = ''invalid memory address or nil pointer dereference''"

subsection \<open>The host application\<close>

type_synonym ('r, 'u) factory_fn = "'u \<Rightarrow> ('r iface \<times> error option) \<times> 'u"
type_synonym ('r, 'u) close_fn = "'r iface \<Rightarrow> 'u \<Rightarrow> error option \<times> 'u"
type_synonym 'u alive_fn = "'u \<Rightarrow> error option \<times> 'u"

text \<open>\<^verbatim>\<open>time.Now()\<close> reads a clock that belongs to the host's state.\<close>

type_synonym 'u clock = "'u \<Rightarrow> time \<times> 'u"

text \<open>
  The world is the host's state and, as a record of what happened, every call the pool made
  to a behaviour, with the argument and the result, oldest first.
\<close>

datatype 'r call = factory_call "'r iface" "error option" | close_call "'r iface" "error option"

record ('r, 'u) world =
  host :: 'u
  calls :: "'r call list"

definition call_factory ::
  "('r, 'u) factory_fn \<Rightarrow> ('r, 'u) world \<Rightarrow> ('r iface \<times> error option) \<times> ('r, 'u) world" where
  "call_factory f w =
     (case f (host w) of
        ((c, err), u) \<Rightarrow> ((c, err), w\<lparr>host := u, calls := calls w @ [factory_call c err]\<rparr>))"

definition call_close ::
  "('r, 'u) close_fn \<Rightarrow> 'r iface \<Rightarrow> ('r, 'u) world \<Rightarrow> error option \<times> ('r, 'u) world" where
  "call_close f c w =
     (case f c (host w) of
        (err, u) \<Rightarrow> (err, w\<lparr>host := u, calls := calls w @ [close_call c err]\<rparr>))"

definition read_clock :: "'u clock \<Rightarrow> ('r, 'u) world \<Rightarrow> time \<times> ('r, 'u) world" where
  "read_clock time_Now w = (case time_Now (host w) of (n, u) \<Rightarrow> (n, w\<lparr>host := u\<rparr>))"

subsection \<open>Configuration, channel and pool\<close>

record ('r, 'u) Config =
  InitCap :: int
  MaxCap :: int
  Factory :: "('r, 'u) factory_fn option"
  Close_fn :: "('r, 'u) close_fn option"
  Alive :: "'u alive_fn option"
  IdleTimeout :: duration

text \<open>
  A buffered channel of \<^verbatim>\<open>*idleConn\<close>: the entries waiting in it (the head is received
  first), its capacity, and whether \<^verbatim>\<open>close\<close> was called on it. A nil channel is
  \<open>None\<close> where a channel is expected.
\<close>

record 'r chan =
  buf :: "'r idleConn list"
  cap :: nat
  closed :: bool

text \<open>
  \<^verbatim>\<open>make(chan *idleConn, n)\<close>, called with \<open>n > 0\<close> only. For an \<open>n\<close> beyond what the
  platform can allocate the Go runtime panics (\<^verbatim>\<open>makechan: size out of range\<close>) or runs
  out of memory, before any construct call; the bound depends on the platform and is not
  modelled. Where the model builds a pool for such an \<open>n\<close> the program gets none, so what
  is proved of the pools \<^verbatim>\<open>NewChannelPool\<close> returns is proved of every pool a program
  holds.
\<close>

definition make_chan :: "int \<Rightarrow> 'r chan" where
  "make_chan n = \<lparr>buf = [], cap = nat n, closed = False\<rparr>"

record ('r, 'u) channelPool =
  conns :: "'r chan option"
  factory :: "('r, 'u) factory_fn option"
  close :: "('r, 'u) close_fn option"
  alive :: "'u alive_fn option"
  idleTimeout :: duration

subsection \<open>Release\<close>

text \<open>
  The loop \<^verbatim>\<open>for wrapConn := range conns { closeFunc(wrapConn) }\<close> over the closed
  channel: it receives every entry left and calls \<^verbatim>\<open>closeFunc\<close> on the pointer it
  received, ignoring the result.
\<close>

fun Release_range ::
  "('r, 'u) close_fn option \<Rightarrow> 'r idleConn list \<Rightarrow> ('r, 'u) world \<Rightarrow> unit outcome \<times> ('r, 'u) world" where
  "Release_range closeFunc [] w = (Returns (), w)"
| "Release_range closeFunc (wrapConn # rest) w =
     (case closeFunc of
        None \<Rightarrow> (Panics nil_func_call, w)
      | Some f \<Rightarrow> Release_range closeFunc rest (snd (call_close f (idleConn_ptr wrapConn) w)))"

definition Release ::
  "('r, 'u) channelPool \<Rightarrow> ('r, 'u) world \<Rightarrow> unit outcome \<times> ('r, 'u) channelPool \<times> ('r, 'u) world" where
  "Release cPool w =
     (let conns0 = conns cPool;
          closeFunc = close cPool;
          cPool' = cPool\<lparr>conns := None, close := None, factory := None\<rparr>
      in case conns0 of
           None \<Rightarrow> (Panics ''close of nil channel'', cPool', w)
         | Some ch \<Rightarrow>
             if closed ch then (Panics ''close of closed channel'', cPool', w)
             else (case Release_range closeFunc (buf ch) w of (out, w') \<Rightarrow> (out, cPool', w')))"

subsection \<open>NewChannelPool\<close>

text \<open>
  The loop \<^verbatim>\<open>for i := 0; i < poolConfig.InitCap; i++\<close>. The send in it is a blocking
  send: on a full channel it would wait for ever.
\<close>

function NewChannelPool_loop ::
  "'u clock \<Rightarrow> int \<Rightarrow> int \<Rightarrow> ('r, 'u) channelPool \<Rightarrow> ('r, 'u) world
     \<Rightarrow> (('r, 'u) channelPool option \<times> error option) outcome \<times> ('r, 'u) world" where
  "NewChannelPool_loop time_Now i n cPool w =
     (if i < n then
        (case factory cPool of
           None \<Rightarrow> (Panics nil_func_call, w)
         | Some f \<Rightarrow>
             (case call_factory f w of
                ((c, Some err), w1) \<Rightarrow>
                  (case Release cPool w1 of
                     (Returns _, _, w2) \<Rightarrow> (Returns (None, Some err), w2)
                   | (Panics s, _, w2) \<Rightarrow> (Panics s, w2)
                   | (Blocks, _, w2) \<Rightarrow> (Blocks, w2))
              | ((c, None), w1) \<Rightarrow>
                  (case read_clock time_Now w1 of
                     (now, w2) \<Rightarrow>
                       (case conns cPool of
                          None \<Rightarrow> (Blocks, w2)
                        | Some ch \<Rightarrow>
                            if closed ch then (Panics ''send on closed channel'', w2)
                            else if length (buf ch) < cap ch then
                              NewChannelPool_loop time_Now (i + 1) n
                                (cPool\<lparr>conns := Some (ch\<lparr>buf := buf ch @ [idleConn c now]\<rparr>)\<rparr>) w2
                            else (Blocks, w2)))))
      else (Returns (Some cPool, None), w))"
  by pat_completeness auto
termination
  by (relation "measure (\<lambda>(time_Now, i, n, cPool, w). nat (n - i))") auto

declare NewChannelPool_loop.simps [simp del]

definition NewChannelPool ::
  "'u clock \<Rightarrow> ('r, 'u) Config option \<Rightarrow> ('r, 'u) world
     \<Rightarrow> (('r, 'u) channelPool option \<times> error option) outcome \<times> ('r, 'u) world" where
  "NewChannelPool time_Now poolConfig w =
     (case poolConfig of
        None \<Rightarrow> (Panics nil_func_call, w)
      | Some cfg \<Rightarrow>
          if InitCap cfg \<le> 0 \<or> MaxCap cfg \<le> 0 \<or> InitCap cfg > MaxCap cfg then
            (Returns (None, Some (errors_New ''poolConfig.InitCap or poolConfig.MaxCap is error'')), w)
          else
            NewChannelPool_loop time_Now 0 (InitCap cfg)
              \<lparr>conns = Some (make_chan (MaxCap cfg)), factory = Factory cfg, close = Close_fn cfg,
               alive = None, idleTimeout = IdleTimeout cfg\<rparr> w)"

subsection \<open>Get\<close>

text \<open>
  The \<^verbatim>\<open>for { select { ... } }\<close> loop of \<^verbatim>\<open>Get\<close> on the entries of the channel. A
  receive from an empty channel that is closed yields a nil pointer; from an empty open one
  the \<^verbatim>\<open>default\<close> branch runs. The loop returns with the entries it left in the channel.
\<close>

fun Get_loop ::
  "'u clock \<Rightarrow> ('r, 'u) channelPool \<Rightarrow> bool \<Rightarrow> 'r idleConn list \<Rightarrow> ('r, 'u) world
     \<Rightarrow> ('r iface \<times> error option) outcome \<times> 'r idleConn list \<times> ('r, 'u) world" where
  "Get_loop time_Now cPool is_closed [] w =
     (if is_closed then (Returns (nil, Some ErrClose), [], w)
      else
        (case factory cPool of
           None \<Rightarrow> (Panics nil_func_call, [], w)
         | Some f \<Rightarrow>
             (case call_factory f w of
                ((c, Some err), w1) \<Rightarrow> (Returns (nil, Some err), [], w1)
              | ((c, None), w1) \<Rightarrow> (Returns (c, None), [], w1))))"
| "Get_loop time_Now cPool is_closed (wrapConn # rest) w =
     (if idleTimeout cPool > 0 then
        (case read_clock time_Now w of
           (now, w1) \<Rightarrow>
             if t wrapConn + idleTimeout cPool < now then
               (case close cPool of
                  None \<Rightarrow> (Panics nil_func_call, rest, w1)
                | Some f \<Rightarrow>
                    Get_loop time_Now cPool is_closed rest
                      (snd (call_close f (idleConn_ptr wrapConn) w1)))
             else (Returns (conn wrapConn, None), rest, w1))
      else (Returns (conn wrapConn, None), rest, w))"

definition Get ::
  "'u clock \<Rightarrow> ('r, 'u) channelPool \<Rightarrow> ('r, 'u) world
     \<Rightarrow> ('r iface \<times> error option) outcome \<times> ('r, 'u) channelPool \<times> ('r, 'u) world" where
  "Get time_Now cPool w =
     (case conns cPool of
        None \<Rightarrow> (Returns (nil, Some ErrClose), cPool, w)
      | Some ch \<Rightarrow>
          (case Get_loop time_Now cPool (closed ch) (buf ch) w of
             (out, rest, w') \<Rightarrow> (out, cPool\<lparr>conns := Some (ch\<lparr>buf := rest\<rparr>)\<rparr>, w')))"

subsection \<open>Close, Put and Len\<close>

definition Close ::
  "('r, 'u) channelPool \<Rightarrow> 'r iface \<Rightarrow> ('r, 'u) world
     \<Rightarrow> error option outcome \<times> ('r, 'u) channelPool \<times> ('r, 'u) world" where
  "Close cPool c w =
     (if c = nil then (Returns (Some (errors_New ''conn is nil'')), cPool, w)
      else
        (case close cPool of
           None \<Rightarrow> (Panics nil_func_call, cPool, w)
         | Some f \<Rightarrow> (case call_close f c w of (err, w') \<Rightarrow> (Returns err, cPool, w'))))"

text \<open>
  The \<^verbatim>\<open>select\<close> of \<^verbatim>\<open>Put\<close> evaluates the value to send, and with it
  \<^verbatim>\<open>time.Now()\<close>, before it chooses a branch.
\<close>

definition Put ::
  "'u clock \<Rightarrow> ('r, 'u) channelPool \<Rightarrow> 'r iface \<Rightarrow> ('r, 'u) world
     \<Rightarrow> error option outcome \<times> ('r, 'u) channelPool \<times> ('r, 'u) world" where
  "Put time_Now cPool c w =
     (if c = nil then (Returns (Some (errors_New ''conn is now'')), cPool, w)
      else
        (case conns cPool of
           None \<Rightarrow> Close cPool c w
         | Some ch \<Rightarrow>
             (case read_clock time_Now w of
                (now, w1) \<Rightarrow>
                  if closed ch then (Panics ''send on closed channel'', cPool, w1)
                  else if length (buf ch) < cap ch then
                    (Returns None, cPool\<lparr>conns := Some (ch\<lparr>buf := buf ch @ [idleConn c now]\<rparr>)\<rparr>, w1)
                  else Close cPool c w1)))"

definition Len :: "('r, 'u) channelPool \<Rightarrow> int" where
  "Len cPool = (case conns cPool of None \<Rightarrow> 0 | Some ch \<Rightarrow> int (length (buf ch)))"

subsection \<open>Using a pool\<close>

text \<open>
  What a program does with a pool, one operation after the other. Between two operations
  the host may change its own state (time passes, connections break). A caller may recover
  from a panic and go on using the pool, so a run continues after one.
\<close>

datatype ('r, 'u) op =
  Op_Get | Op_Put "'r iface" | Op_Close "'r iface" | Op_Release | Op_Len | Op_Host "'u \<Rightarrow> 'u"

fun step ::
  "'u clock \<Rightarrow> ('r, 'u) op \<Rightarrow> ('r, 'u) channelPool \<times> ('r, 'u) world
     \<Rightarrow> ('r, 'u) channelPool \<times> ('r, 'u) world" where
  "step time_Now Op_Get (cPool, w) = snd (Get time_Now cPool w)"
| "step time_Now (Op_Put c) (cPool, w) = snd (Put time_Now cPool c w)"
| "step time_Now (Op_Close c) (cPool, w) = snd (Close cPool c w)"
| "step time_Now Op_Release (cPool, w) = snd (Release cPool w)"
| "step time_Now Op_Len (cPool, w) = (cPool, w)"
| "step time_Now (Op_Host g) (cPool, w) = (cPool, w\<lparr>host := g (host w)\<rparr>)"

fun run ::
  "'u clock \<Rightarrow> ('r, 'u) op list \<Rightarrow> ('r, 'u) channelPool \<times> ('r, 'u) world
     \<Rightarrow> ('r, 'u) channelPool \<times> ('r, 'u) world" where
  "run time_Now [] s = s"
| "run time_Now (x # xs) s = run time_Now xs (step time_Now x s)"

text \<open>
  The pool that \<^verbatim>\<open>NewChannelPool\<close> builds for a configuration, holding the given idle
  entries, and the same pool after \<^verbatim>\<open>Release\<close>.
\<close>

definition pool_of :: "('r, 'u) Config \<Rightarrow> 'r idleConn list \<Rightarrow> ('r, 'u) channelPool" where
  "pool_of cfg entries =
     \<lparr>conns = Some \<lparr>buf = entries, cap = nat (MaxCap cfg), closed = False\<rparr>,
      factory = Factory cfg, close = Close_fn cfg, alive = None, idleTimeout = IdleTimeout cfg\<rparr>"

definition released :: "('r, 'u) Config \<Rightarrow> ('r, 'u) channelPool" where
  "released cfg =
     \<lparr>conns = None, factory = None, close = None, alive = None, idleTimeout = IdleTimeout cfg\<rparr>"

text \<open>
  The shape of every pool a program can hold: released, or the open pool of its
  configuration with no more idle entries than \<^verbatim>\<open>MaxCap\<close>.
\<close>

definition pool_inv :: "('r, 'u) Config \<Rightarrow> ('r, 'u) channelPool \<Rightarrow> bool" where
  "pool_inv cfg cPool =
     (case conns cPool of
        None \<Rightarrow> cPool = released cfg
      | Some ch \<Rightarrow> cPool = pool_of cfg (buf ch) \<and> length (buf ch) \<le> nat (MaxCap cfg))"

text \<open>
  The rounds of the loop of \<^verbatim>\<open>Get\<close> that drop expired entries: \<open>evicted\<close> tells
  whether the loop, started in world \<open>w\<close>, drops every entry of the list in turn (each is
  older than the timeout \<open>d\<close> when the loop reads the clock for it, and there is a destroy
  behaviour to call), and if so gives the world after the last of these rounds.
\<close>

fun evicted ::
  "'u clock \<Rightarrow> duration \<Rightarrow> ('r, 'u) close_fn option \<Rightarrow> 'r idleConn list \<Rightarrow> ('r, 'u) world
     \<Rightarrow> ('r, 'u) world option" where
  "evicted time_Now d cf [] w = Some w"
| "evicted time_Now d cf (e # es) w =
     (case cf of
        None \<Rightarrow> None
      | Some f \<Rightarrow>
          (case read_clock time_Now w of
             (now, w1) \<Rightarrow>
               if 0 < d \<and> t e + d < now
               then evicted time_Now d cf es (snd (call_close f (idleConn_ptr e) w1))
               else None))"

text \<open>The calls an operation added to the record of the world.\<close>

definition new_calls :: "('r, 'u) world \<Rightarrow> ('r, 'u) world \<Rightarrow> 'r call list" where
  "new_calls w w' = drop (length (calls w)) (calls w')"

text \<open>
  A construct call that failed; a destroy call; and the calls that follow the first failed
  construct call in a list of calls.
\<close>

fun construct_failed :: "'r call \<Rightarrow> bool" where
  "construct_failed (factory_call c err) = (err \<noteq> None)"
| "construct_failed (close_call c err) = False"

fun is_close_call :: "'r call \<Rightarrow> bool" where
  "is_close_call (factory_call c err) = False"
| "is_close_call (close_call c err) = True"

definition after_failure :: "'r call list \<Rightarrow> 'r call list" where
  "after_failure cs = tl (dropWhile (\<lambda>x. \<not> construct_failed x) cs)"

subsection \<open>A host to run the pool with\<close>

text \<open>
  The state of this host is the number of resources it has built and the time on its
  clock. Its factory numbers the resources and its destroy behaviour succeeds.
\<close>

type_synonym demo_host = "nat \<times> time"

definition demo_factory :: "(nat, demo_host) factory_fn" where
  "demo_factory u = ((Val (fst u), None), (Suc (fst u), snd u))"

definition demo_close :: "(nat, demo_host) close_fn" where
  "demo_close c u = (None, u)"

definition demo_clock :: "demo_host clock" where
  "demo_clock u = (snd u, u)"

definition demo_config :: "int \<Rightarrow> int \<Rightarrow> duration \<Rightarrow> (nat, demo_host) Config" where
  "demo_config init_cap max_cap timeout =
     \<lparr>InitCap = init_cap, MaxCap = max_cap, Factory = Some demo_factory,
      Close_fn = Some demo_close, Alive = None, IdleTimeout = timeout\<rparr>"

text \<open>
  A host whose factory builds \<open>k\<close> resources and fails from then on, and whose destroy
  behaviour always fails.
\<close>

definition failing_close :: "(nat, demo_host) close_fn" where
  "failing_close c u = (Some (HostError ''close failed''), u)"

definition flaky_factory :: "nat \<Rightarrow> (nat, demo_host) factory_fn" where
  "flaky_factory k u =
     (if fst u < k then ((Val (fst u), None), (Suc (fst u), snd u))
      else ((nil, Some (HostError ''factory failed'')), u))"

definition flaky_config :: "nat \<Rightarrow> int \<Rightarrow> int \<Rightarrow> duration \<Rightarrow> (nat, demo_host) Config" where
  "flaky_config k init_cap max_cap timeout =
     \<lparr>InitCap = init_cap, MaxCap = max_cap, Factory = Some (flaky_factory k),
      Close_fn = Some failing_close, Alive = None, IdleTimeout = timeout\<rparr>"

definition demo_world :: "(nat, demo_host) world" where
  "demo_world = \<lparr>host = (0, 0), calls = []\<rparr>"

section \<open>Properties\<close>

lemmas demo_defs = demo_config_def flaky_config_def flaky_factory_def demo_world_def demo_factory_def demo_close_def failing_close_def
  demo_clock_def pool_of_def released_def make_chan_def call_factory_def call_close_def read_clock_def

subsection \<open>The pools of the example host\<close>

text \<open>
  \<^verbatim>\<open>NewChannelPool\<close> with \<^verbatim>\<open>InitCap = 1\<close> and \<^verbatim>\<open>MaxCap = 1\<close> builds resource 0 and
  stores it; the concrete pools used below are pools a program gets this way.
\<close>

lemma NewChannelPool_demo:
  "NewChannelPool demo_clock (Some (demo_config 1 1 d)) demo_world =
     (Returns (Some (pool_of (demo_config 1 1 d) [idleConn (Val 0) 0]), None),
      \<lparr>host = (1, 0), calls = [factory_call (Val 0) None]\<rparr>)"
  by (simp add: NewChannelPool_def NewChannelPool_loop.simps demo_defs)

lemma Release_demo:
  "Release (pool_of (demo_config 1 1 d) [idleConn (Val 0) 0])
       \<lparr>host = (1, 0), calls = [factory_call (Val 0) None]\<rparr> =
     (Returns (), released (demo_config 1 1 d),
      \<lparr>host = (1, 0),
       calls = [factory_call (Val 0) None, close_call (idleConn_ptr (idleConn (Val 0) 0)) None]\<rparr>)"
  by (simp add: Release_def demo_defs)

subsection \<open>Released pools stay released\<close>

lemma Release_conns: "Release cPool w = (out, p1, w1) \<Longrightarrow> conns p1 = None"
  by (auto simp: Release_def Let_def split: option.splits if_splits prod.splits)

lemma Get_closed:
  "conns cPool = None \<Longrightarrow> Get time_Now cPool w = (Returns (nil, Some ErrClose), cPool, w)"
  by (simp add: Get_def)

lemma Close_pool: "fst (snd (Close cPool c w)) = cPool"
  by (simp add: Close_def split: option.splits prod.splits)

lemma step_closed: "conns (fst s) = None \<Longrightarrow> conns (fst (step time_Now x s)) = None"
proof (cases s)
  case (Pair cPool w)
  assume "conns (fst s) = None"
  with Pair have c: "conns cPool = None" by simp
  show ?thesis
  proof (cases x)
    case Op_Get
    with Pair c show ?thesis by (simp add: Get_closed)
  next
    case (Op_Put v)
    with Pair c show ?thesis by (simp add: Put_def Close_pool)
  next
    case (Op_Close v)
    with Pair c show ?thesis by (simp add: Close_pool)
  next
    case Op_Release
    with Pair show ?thesis
      by (metis Release_conns fst_conv prod.collapse snd_conv step.simps(4))
  next
    case Op_Len
    with Pair c show ?thesis by simp
  next
    case (Op_Host g)
    with Pair c show ?thesis by simp
  qed
qed

lemma run_closed: "conns (fst s) = None \<Longrightarrow> conns (fst (run time_Now xs s)) = None"
  by (induction xs arbitrary: s) (simp_all add: step_closed)

text \<open>
  Claim C8. Once \<^verbatim>\<open>Release\<close> has returned, every later \<^verbatim>\<open>Get\<close>, whatever the program
  and the host did with the pool in between, returns the nil value with the error
  \<^verbatim>\<open>ErrClose\<close>, and leaves the pool and the world as they were (so it builds nothing).
\<close>

theorem Get_after_Release:
  assumes "Release cPool w = (Returns (), p1, w1)"
    and "run time_Now xs (p1, w1) = (p2, w2)"
  shows "Get time_Now p2 w2 = (Returns (nil, Some ErrClose), p2, w2)"
proof -
  from assms(1) have "conns p1 = None" by (rule Release_conns)
  then have "conns (fst (run time_Now xs (p1, w1))) = None" by (simp add: run_closed)
  with assms(2) have "conns p2 = None" by simp
  then show ?thesis by (rule Get_closed)
qed

theorem Get_after_Release_witness:
  "Release (pool_of (demo_config 1 1 0) [idleConn (Val 0) 0])
       \<lparr>host = (1, 0), calls = [factory_call (Val 0) None]\<rparr>
     = (Returns (), released (demo_config 1 1 0),
        \<lparr>host = (1, 0),
         calls = [factory_call (Val 0) None, close_call (idleConn_ptr (idleConn (Val 0) 0)) None]\<rparr>)
   \<and> run demo_clock [Op_Host (\<lambda>u. (fst u, 9)), Op_Get]
        (released (demo_config 1 1 0),
         \<lparr>host = (1, 0),
          calls = [factory_call (Val 0) None, close_call (idleConn_ptr (idleConn (Val 0) 0)) None]\<rparr>)
     = (released (demo_config 1 1 0),
        \<lparr>host = (1, 9),
         calls = [factory_call (Val 0) None, close_call (idleConn_ptr (idleConn (Val 0) 0)) None]\<rparr>)
   \<and> Get demo_clock (released (demo_config 1 1 0))
        \<lparr>host = (1, 9),
         calls = [factory_call (Val 0) None, close_call (idleConn_ptr (idleConn (Val 0) 0)) None]\<rparr>
     = (Returns (nil, Some ErrClose), released (demo_config 1 1 0),
        \<lparr>host = (1, 9),
         calls = [factory_call (Val 0) None, close_call (idleConn_ptr (idleConn (Val 0) 0)) None]\<rparr>)"
proof -
  have r: "Release (pool_of (demo_config 1 1 0) [idleConn (Val 0) 0])
       \<lparr>host = (1, 0), calls = [factory_call (Val 0) None]\<rparr>
     = (Returns (), released (demo_config 1 1 0),
        \<lparr>host = (1, 0),
         calls = [factory_call (Val 0) None, close_call (idleConn_ptr (idleConn (Val 0) 0)) None]\<rparr>)"
    by (rule Release_demo)
  have s: "run demo_clock [Op_Host (\<lambda>u. (fst u, 9)), Op_Get]
        (released (demo_config 1 1 0),
         \<lparr>host = (1, 0),
          calls = [factory_call (Val 0) None, close_call (idleConn_ptr (idleConn (Val 0) 0)) None]\<rparr>)
     = (released (demo_config 1 1 0),
        \<lparr>host = (1, 9),
         calls = [factory_call (Val 0) None, close_call (idleConn_ptr (idleConn (Val 0) 0)) None]\<rparr>)"
    by (simp add: Get_def demo_defs)
  from r s Get_after_Release [OF r s] show ?thesis by simp
qed

subsection \<open>The validation of the configuration\<close>

text \<open>
  Claim C9. When \<^verbatim>\<open>InitCap \<le> 0\<close>, \<^verbatim>\<open>MaxCap \<le> 0\<close> or \<^verbatim>\<open>InitCap > MaxCap\<close>,
  \<^verbatim>\<open>NewChannelPool\<close> returns no pool and the error built from the text
  \<^verbatim>\<open>poolConfig.InitCap or poolConfig.MaxCap is error\<close>, and the world it leaves is the world
  it found: the record of calls has not grown, so the construct behaviour was not called.
\<close>

theorem NewChannelPool_invalid_config:
  assumes "InitCap cfg \<le> 0 \<or> MaxCap cfg \<le> 0 \<or> InitCap cfg > MaxCap cfg"
  shows "NewChannelPool time_Now (Some cfg) w =
           (Returns (None, Some (errors_New ''poolConfig.InitCap or poolConfig.MaxCap is error'')), w)
         \<and> new_calls w (snd (NewChannelPool time_Now (Some cfg) w)) = []"
  using assms by (simp add: NewChannelPool_def new_calls_def)

theorem NewChannelPool_invalid_config_witness:
  "(InitCap (demo_config 3 2 0) \<le> 0 \<or> MaxCap (demo_config 3 2 0) \<le> 0
      \<or> InitCap (demo_config 3 2 0) > MaxCap (demo_config 3 2 0))
   \<and> NewChannelPool demo_clock (Some (demo_config 3 2 0)) demo_world =
       (Returns (None, Some (errors_New ''poolConfig.InitCap or poolConfig.MaxCap is error'')),
        demo_world)"
proof -
  have h: "InitCap (demo_config 3 2 0) \<le> 0 \<or> MaxCap (demo_config 3 2 0) \<le> 0
      \<or> InitCap (demo_config 3 2 0) > MaxCap (demo_config 3 2 0)"
    by (simp add: demo_config_def)
  from h NewChannelPool_invalid_config [OF h, of demo_clock demo_world] show ?thesis by simp
qed

subsection \<open>The idle queue stays within its capacity\<close>

lemma Get_loop_rest:
  "Get_loop time_Now cPool cl b w = (out, rest, w') \<Longrightarrow> length rest \<le> length b"
proof (induction b arbitrary: w)
  case Nil
  then show ?case by (auto split: if_splits option.splits prod.splits)
next
  case (Cons e b)
  then show ?case
    by (fastforce split: if_splits option.splits prod.splits)
qed

lemma pool_inv_pool_of: "length es \<le> nat (MaxCap cfg) \<Longrightarrow> pool_inv cfg (pool_of cfg es)"
  by (simp add: pool_inv_def pool_of_def)

lemma pool_inv_released: "pool_inv cfg (released cfg)"
  by (simp add: pool_inv_def released_def)

lemma pool_inv_cases:
  assumes "pool_inv cfg cPool"
  obtains "cPool = released cfg"
  | es where "cPool = pool_of cfg es" and "length es \<le> nat (MaxCap cfg)"
  using assms by (auto simp: pool_inv_def split: option.splits)

lemma Get_pool_of:
  "\<exists>rest. length rest \<le> length es \<and> fst (snd (Get time_Now (pool_of cfg es) w)) = pool_of cfg rest"
proof -
  obtain out rest w' where g: "Get_loop time_Now (pool_of cfg es) False es w = (out, rest, w')"
    by (metis prod.exhaust)
  then have "length rest \<le> length es" by (rule Get_loop_rest)
  moreover from g have "fst (snd (Get time_Now (pool_of cfg es) w)) = pool_of cfg rest"
    by (simp add: Get_def pool_of_def)
  ultimately show ?thesis by blast
qed

lemma Put_pool_of:
  assumes "length es \<le> nat (MaxCap cfg)"
  shows "\<exists>es'. length es' \<le> nat (MaxCap cfg) \<and> fst (snd (Put time_Now (pool_of cfg es) c w)) = pool_of cfg es'"
proof (cases "c \<noteq> nil \<and> length es < nat (MaxCap cfg)")
  case True
  then have "fst (snd (Put time_Now (pool_of cfg es) c w))
      = pool_of cfg (es @ [idleConn c (fst (read_clock time_Now w))])"
    by (simp add: Put_def pool_of_def split: prod.splits)
  with True show ?thesis
    by (intro exI [of _ "es @ [idleConn c (fst (read_clock time_Now w))]"]) simp
next
  case False
  then have "fst (snd (Put time_Now (pool_of cfg es) c w)) = pool_of cfg es"
    by (auto simp: Put_def pool_of_def Close_pool split: prod.splits)
  with assms show ?thesis by blast
qed

lemma Release_pool_of: "fst (snd (Release (pool_of cfg es) w)) = released cfg"
  by (simp add: Release_def pool_of_def released_def split: prod.splits)

lemma Release_released: "Release (released cfg) w = (Panics ''close of nil channel'', released cfg, w)"
  by (simp add: Release_def released_def)

lemma step_inv: "pool_inv cfg (fst s) \<Longrightarrow> pool_inv cfg (fst (step time_Now x s))"
proof (cases s)
  case (Pair cPool w)
  assume "pool_inv cfg (fst s)"
  with Pair have "pool_inv cfg cPool" by simp
  then show ?thesis
  proof (cases rule: pool_inv_cases)
    case 1
    then have "conns cPool = None" by (simp add: released_def)
    with 1 Pair show ?thesis
      by (cases x) (simp_all add: Get_closed Put_def Close_pool Release_released pool_inv_released)
  next
    case (2 es)
    show ?thesis
    proof (cases x)
      case Op_Get
      with Pair 2 Get_pool_of [of es time_Now cfg w] show ?thesis
        by (auto intro!: pool_inv_pool_of)
    next
      case (Op_Put c)
      with Pair 2 Put_pool_of [of es cfg time_Now c w] show ?thesis
        by (auto intro!: pool_inv_pool_of)
    next
      case (Op_Close c)
      with Pair 2 show ?thesis by (simp add: Close_pool pool_inv_pool_of)
    next
      case Op_Release
      with Pair 2 show ?thesis by (simp add: Release_pool_of pool_inv_released)
    next
      case Op_Len
      with Pair 2 show ?thesis by (simp add: pool_inv_pool_of)
    next
      case (Op_Host g)
      with Pair 2 show ?thesis by (simp add: pool_inv_pool_of)
    qed
  qed
qed

lemma run_inv: "pool_inv cfg (fst s) \<Longrightarrow> pool_inv cfg (fst (run time_Now xs s))"
  by (induction xs arbitrary: s) (simp_all add: step_inv)

lemma NewChannelPool_loop_inv:
  "NewChannelPool_loop time_Now i n cPool w = (Returns (Some p, None), w') \<Longrightarrow>
   cPool = pool_of cfg es \<Longrightarrow>
   \<exists>es'. p = pool_of cfg es' \<and> length es' \<le> max (length es) (nat (MaxCap cfg))
      \<and> int (length es') = int (length es) + max 0 (n - i)"
proof (induction time_Now i n cPool w arbitrary: es rule: NewChannelPool_loop.induct)
  case (1 time_Now i n cPool w)
  show ?case
  proof (cases "i < n")
    case False
    with "1.prems" show ?thesis by (auto simp add: NewChannelPool_loop.simps)
  next
    case True
    from "1.prems"(1) True obtain f c w1 now w2 where
      f: "factory cPool = Some f" and cf: "call_factory f w = ((c, None), w1)"
      and rc: "read_clock time_Now w1 = (now, w2)" and room: "length es < nat (MaxCap cfg)"
      and rec: "NewChannelPool_loop time_Now (i + 1) n (pool_of cfg (es @ [idleConn c now])) w2
                  = (Returns (Some p, None), w')"
      unfolding "1.prems"(2)
      by (subst (asm) NewChannelPool_loop.simps)
         (auto simp: pool_of_def split: option.splits prod.splits if_splits outcome.splits)
    let ?ch = "\<lparr>buf = es, cap = nat (MaxCap cfg), closed = False\<rparr> :: 'a chan"
    have eq: "cPool\<lparr>conns := Some (?ch\<lparr>buf := buf ?ch @ [idleConn c now]\<rparr>)\<rparr>
                = pool_of cfg (es @ [idleConn c now])"
      by (simp add: "1.prems"(2) pool_of_def)
    have "\<exists>es'. p = pool_of cfg es'
            \<and> length es' \<le> max (length (es @ [idleConn c now])) (nat (MaxCap cfg))
            \<and> int (length es') = int (length (es @ [idleConn c now])) + max 0 (n - (i + 1))"
    proof (rule "1.IH" [OF True f cf [symmetric] refl refl rc [symmetric], of ?ch])
      show "conns cPool = Some ?ch" by (simp add: "1.prems"(2) pool_of_def)
      show "\<not> closed ?ch" by simp
      show "length (buf ?ch) < cap ?ch" using room by simp
      show "NewChannelPool_loop time_Now (i + 1) n
              (cPool\<lparr>conns := Some (?ch\<lparr>buf := buf ?ch @ [idleConn c now]\<rparr>)\<rparr>) w2
            = (Returns (Some p, None), w')"
        using rec eq by simp
      show "cPool\<lparr>conns := Some (?ch\<lparr>buf := buf ?ch @ [idleConn c now]\<rparr>)\<rparr>
              = pool_of cfg (es @ [idleConn c now])"
        by (rule eq)
    qed
    then obtain es' where "p = pool_of cfg es'"
      and "length es' \<le> max (length (es @ [idleConn c now])) (nat (MaxCap cfg))"
      and "int (length es') = int (length (es @ [idleConn c now])) + max 0 (n - (i + 1))"
      by blast
    with room True show ?thesis
      by (intro exI [of _ es']) auto
  qed
qed


lemma NewChannelPool_inv:
  assumes "NewChannelPool time_Now (Some cfg) w = (Returns (Some p, None), w')"
  shows "pool_inv cfg p \<and> Len p = InitCap cfg"
proof -
  from assms have ok: "0 < InitCap cfg" "InitCap cfg \<le> MaxCap cfg"
    and loop: "NewChannelPool_loop time_Now 0 (InitCap cfg) (pool_of cfg []) w
                 = (Returns (Some p, None), w')"
    by (auto simp: NewChannelPool_def pool_of_def make_chan_def split: if_splits)
  from NewChannelPool_loop_inv [OF loop refl] obtain es' where
    "p = pool_of cfg es'" "length es' \<le> nat (MaxCap cfg)" "int (length es') = InitCap cfg"
    using ok by auto
  then have "pool_inv cfg p" and "Len p = InitCap cfg"
    by (simp add: pool_inv_pool_of, simp add: Len_def pool_of_def)
  then show ?thesis by simp
qed

lemma Put_full:
  assumes "c \<noteq> nil" and "Close_fn cfg = Some f" and "nat (MaxCap cfg) \<le> length es"
  shows "\<exists>err w'. Put time_Now (pool_of cfg es) c w = (Returns err, pool_of cfg es, w')
           \<and> new_calls w w' = [close_call c err]
           \<and> (err, host w') = f c (snd (time_Now (host w)))"
  using assms
  by (auto simp: Put_def Close_def pool_of_def read_clock_def call_close_def new_calls_def
           split: prod.splits)

text \<open>
  Claim C7. In every state a program can bring a pool to (the pool \<^verbatim>\<open>NewChannelPool\<close>
  returned, then any operations, with the host changing its state in between) \<^verbatim>\<open>Len\<close>
  is at most \<^verbatim>\<open>MaxCap\<close>. In such a state, when the pool is open and holds
  \<^verbatim>\<open>MaxCap\<close> idle entries, \<^verbatim>\<open>Put\<close> of a resource (a non-nil value; the destroy
  behaviour being configured) makes exactly one call, the destroy behaviour on that
  resource, returns its result and leaves the pool as it was.
\<close>

theorem Len_le_MaxCap:
  assumes "NewChannelPool time_Now (Some cfg) w0 = (Returns (Some p0, None), w1)"
    and "run time_Now xs (p0, w1) = (cPool, w)"
  shows "Len cPool \<le> MaxCap cfg \<and>
         (conns cPool \<noteq> None \<and> Len cPool = MaxCap cfg \<and> c \<noteq> nil \<and> Close_fn cfg = Some f \<longrightarrow>
            (\<exists>err w'. Put time_Now cPool c w = (Returns err, cPool, w')
               \<and> new_calls w w' = [close_call c err]
               \<and> (err, host w') = f c (snd (time_Now (host w)))))"
proof -
  from assms(1) have pos: "0 < MaxCap cfg"
    by (auto simp: NewChannelPool_def split: if_splits)
  from assms(1) have "pool_inv cfg p0" by (simp add: NewChannelPool_inv)
  then have "pool_inv cfg (fst (run time_Now xs (p0, w1)))" by (simp add: run_inv)
  with assms(2) have "pool_inv cfg cPool" by simp
  then show ?thesis
  proof (cases rule: pool_inv_cases)
    case 1
    with pos show ?thesis by (simp add: released_def Len_def)
  next
    case (2 es)
    have len: "Len cPool = int (length es)" by (simp add: 2(1) Len_def pool_of_def)
    with 2(2) pos have "Len cPool \<le> MaxCap cfg" by simp
    moreover have "\<exists>err w'. Put time_Now cPool c w = (Returns err, cPool, w')
               \<and> new_calls w w' = [close_call c err]
               \<and> (err, host w') = f c (snd (time_Now (host w)))"
      if "Len cPool = MaxCap cfg" "c \<noteq> nil" "Close_fn cfg = Some f"
      unfolding 2(1) using that len by (intro Put_full) simp_all
    ultimately show ?thesis by blast
  qed
qed

theorem Len_le_MaxCap_witness:
  "NewChannelPool demo_clock (Some (demo_config 1 1 0)) demo_world =
     (Returns (Some (pool_of (demo_config 1 1 0) [idleConn (Val 0) 0]), None),
      \<lparr>host = (1, 0), calls = [factory_call (Val 0) None]\<rparr>)
   \<and> run demo_clock [Op_Get, Op_Put (Val 0)]
       (pool_of (demo_config 1 1 0) [idleConn (Val 0) 0],
        \<lparr>host = (1, 0), calls = [factory_call (Val 0) None]\<rparr>) =
       (pool_of (demo_config 1 1 0) [idleConn (Val 0) 0],
        \<lparr>host = (1, 0), calls = [factory_call (Val 0) None]\<rparr>)
   \<and> conns (pool_of (demo_config 1 1 0) [idleConn (Val 0) 0]) \<noteq> None
   \<and> Len (pool_of (demo_config 1 1 0) [idleConn (Val 0) 0]) = MaxCap (demo_config 1 1 0)
   \<and> Val 5 \<noteq> (nil :: nat iface)
   \<and> Close_fn (demo_config 1 1 0) = Some demo_close
   \<and> Len (pool_of (demo_config 1 1 0) [idleConn (Val 0) 0]) \<le> MaxCap (demo_config 1 1 0)
   \<and> (\<exists>err w'. Put demo_clock (pool_of (demo_config 1 1 0) [idleConn (Val 0) 0]) (Val 5)
                  \<lparr>host = (1, 0), calls = [factory_call (Val 0) None]\<rparr>
                = (Returns err, pool_of (demo_config 1 1 0) [idleConn (Val 0) 0], w')
          \<and> new_calls \<lparr>host = (1, 0), calls = [factory_call (Val 0) None]\<rparr> w'
                = [close_call (Val 5) err]
          \<and> (err, host w') = demo_close (Val 5) (snd (demo_clock (1, 0))))"
proof -
  have n: "NewChannelPool demo_clock (Some (demo_config 1 1 0)) demo_world =
     (Returns (Some (pool_of (demo_config 1 1 0) [idleConn (Val 0) 0]), None),
      \<lparr>host = (1, 0), calls = [factory_call (Val 0) None]\<rparr>)"
    by (rule NewChannelPool_demo)
  have r: "run demo_clock [Op_Get, Op_Put (Val 0)]
       (pool_of (demo_config 1 1 0) [idleConn (Val 0) 0],
        \<lparr>host = (1, 0), calls = [factory_call (Val 0) None]\<rparr>) =
       (pool_of (demo_config 1 1 0) [idleConn (Val 0) 0],
        \<lparr>host = (1, 0), calls = [factory_call (Val 0) None]\<rparr>)"
    by (simp add: Get_def Put_def demo_defs)
  have h: "conns (pool_of (demo_config 1 1 0) [idleConn (Val 0) 0]) \<noteq> None
   \<and> Len (pool_of (demo_config 1 1 0) [idleConn (Val 0) 0]) = MaxCap (demo_config 1 1 0)
   \<and> Val 5 \<noteq> (nil :: nat iface)
   \<and> Close_fn (demo_config 1 1 0) = Some demo_close"
    by (simp add: pool_of_def Len_def demo_config_def)
  from n r h Len_le_MaxCap [OF n r, of "Val 5" demo_close] show ?thesis by simp
qed

subsection \<open>Get and Put on the idle queue\<close>

lemma Get_head:
  assumes "IdleTimeout cfg \<le> 0 \<or> fst (time_Now (host w)) \<le> t e + IdleTimeout cfg"
  shows "Get time_Now (pool_of cfg (e # es)) w =
           (Returns (conn e, None), pool_of cfg es,
            if 0 < IdleTimeout cfg then snd (read_clock time_Now w) else w)"
  using assms by (auto simp: Get_def pool_of_def read_clock_def split: prod.splits)

lemma Put_room:
  assumes "length es < nat (MaxCap cfg)" and "r \<noteq> nil"
  shows "Put time_Now (pool_of cfg es) r w =
           (Returns None, pool_of cfg (es @ [idleConn r (fst (time_Now (host w)))]),
            snd (read_clock time_Now w))"
  using assms by (auto simp: Put_def pool_of_def read_clock_def split: prod.splits)

text \<open>
  Claim C6, as amended. In an open pool whose idle queue is not empty and within its
  capacity, whose head entry holds a non-nil resource and has not expired when \<^verbatim>\<open>Get\<close>
  reads the clock, \<^verbatim>\<open>Get\<close> returns the resource of the head entry, \<^verbatim>\<open>Put\<close> of that
  resource succeeds, and \<^verbatim>\<open>Len\<close> after the \<^verbatim>\<open>Put\<close> is \<^verbatim>\<open>Len\<close> before the
  \<^verbatim>\<open>Get\<close>.
\<close>

theorem Get_Put_round_trip:
  assumes "length (e # es) \<le> nat (MaxCap cfg)"
    and "conn e \<noteq> nil"
    and "IdleTimeout cfg \<le> 0 \<or> fst (time_Now (host w)) \<le> t e + IdleTimeout cfg"
  shows "\<exists>w1 p2 w2.
           Get time_Now (pool_of cfg (e # es)) w = (Returns (conn e, None), pool_of cfg es, w1)
           \<and> Put time_Now (pool_of cfg es) (conn e) w1 = (Returns None, p2, w2)
           \<and> Len p2 = Len (pool_of cfg (e # es))"
proof -
  let ?w1 = "if 0 < IdleTimeout cfg then snd (read_clock time_Now w) else w"
  let ?e' = "idleConn (conn e) (fst (time_Now (host ?w1)))"
  have g: "Get time_Now (pool_of cfg (e # es)) w = (Returns (conn e, None), pool_of cfg es, ?w1)"
    using assms(3) by (rule Get_head [where time_Now = time_Now and w = w])
  from assms(1) have "length es < nat (MaxCap cfg)" by simp
  then have p: "Put time_Now (pool_of cfg es) (conn e) ?w1 =
      (Returns None, pool_of cfg (es @ [?e']), snd (read_clock time_Now ?w1))"
    using assms(2) by (rule Put_room)
  have "Len (pool_of cfg (es @ [?e'])) = Len (pool_of cfg (e # es))"
    by (simp add: Len_def pool_of_def)
  with g p show ?thesis by blast
qed

theorem Get_Put_round_trip_witness:
  "length (idleConn (Val 0) 0 # [idleConn (Val 1) 0]) \<le> nat (MaxCap (demo_config 2 2 5))
   \<and> conn (idleConn (Val (0::nat)) 0) \<noteq> nil
   \<and> fst (demo_clock (host \<lparr>host = (2, 3), calls = ([] :: nat call list)\<rparr>))
        \<le> t (idleConn (Val (0::nat)) 0) + IdleTimeout (demo_config 2 2 5)
   \<and> (\<exists>w1 p2 w2.
           Get demo_clock (pool_of (demo_config 2 2 5) (idleConn (Val 0) 0 # [idleConn (Val 1) 0]))
               \<lparr>host = (2, 3), calls = []\<rparr>
             = (Returns (conn (idleConn (Val 0) 0), None),
                pool_of (demo_config 2 2 5) [idleConn (Val 1) 0], w1)
           \<and> Put demo_clock (pool_of (demo_config 2 2 5) [idleConn (Val 1) 0])
                 (conn (idleConn (Val 0) 0)) w1 = (Returns None, p2, w2)
           \<and> Len p2 = Len (pool_of (demo_config 2 2 5) (idleConn (Val 0) 0 # [idleConn (Val 1) 0])))"
proof -
  have a: "length (idleConn (Val 0) 0 # [idleConn (Val 1) 0]) \<le> nat (MaxCap (demo_config 2 2 5))"
    by (simp add: demo_config_def)
  have b: "conn (idleConn (Val (0::nat)) 0) \<noteq> nil" by simp
  have c: "fst (demo_clock (host \<lparr>host = (2, 3), calls = ([] :: nat call list)\<rparr>))
        \<le> t (idleConn (Val (0::nat)) 0) + IdleTimeout (demo_config 2 2 5)"
    by (simp add: demo_config_def demo_clock_def)
  from c have c': "IdleTimeout (demo_config 2 2 5) \<le> 0
       \<or> fst (demo_clock (host \<lparr>host = (2, 3), calls = ([] :: nat call list)\<rparr>))
        \<le> t (idleConn (Val (0::nat)) 0) + IdleTimeout (demo_config 2 2 5)" ..
  note th = Get_Put_round_trip [where e = "idleConn (Val 0) 0" and es = "[idleConn (Val 1) 0]"
      and cfg = "demo_config 2 2 5" and time_Now = demo_clock
      and w = "\<lparr>host = (2, 3), calls = []\<rparr>", OF a b c']
  show ?thesis by (intro conjI a b c th)
qed

text \<open>
  Claim C6 as it is written, for every open pool, fails on an empty idle queue: the pool
  built with \<^verbatim>\<open>InitCap = MaxCap = 1\<close> is empty after one \<^verbatim>\<open>Get\<close>; the next
  \<^verbatim>\<open>Get\<close> builds resource 1, \<^verbatim>\<open>Put\<close> stores it, and \<^verbatim>\<open>Len\<close> has gone from 0
  to 1.
\<close>

theorem Get_Put_empty_queue_counterexample:
  "Len (pool_of (demo_config 1 1 0) []) = 0
   \<and> Get demo_clock (pool_of (demo_config 1 1 0) [])
         \<lparr>host = (1, 0), calls = [factory_call (Val 0) None]\<rparr> =
       (Returns (Val 1, None), pool_of (demo_config 1 1 0) [],
        \<lparr>host = (2, 0), calls = [factory_call (Val 0) None, factory_call (Val 1) None]\<rparr>)
   \<and> Put demo_clock (pool_of (demo_config 1 1 0) []) (Val 1)
         \<lparr>host = (2, 0), calls = [factory_call (Val 0) None, factory_call (Val 1) None]\<rparr> =
       (Returns None, pool_of (demo_config 1 1 0) [idleConn (Val 1) 0],
        \<lparr>host = (2, 0), calls = [factory_call (Val 0) None, factory_call (Val 1) None]\<rparr>)
   \<and> Len (pool_of (demo_config 1 1 0) [idleConn (Val 1) 0]) = 1"
  by (simp add: Len_def Get_def Put_def demo_defs)

subsection \<open>The calls an operation makes\<close>

lemma call_close_calls: "calls (snd (call_close f c w)) = calls w @ [close_call c (fst (call_close f c w))]"
  by (simp add: call_close_def split: prod.splits)

lemma call_factory_calls:
  "call_factory f w = ((c, err), w1) \<Longrightarrow> calls w1 = calls w @ [factory_call c err]"
  by (auto simp: call_factory_def split: prod.splits)

lemma read_clock_calls: "calls (snd (read_clock time_Now w)) = calls w"
  by (simp add: read_clock_def split: prod.splits)

lemma Release_range_calls:
  "\<exists>cs. list_all is_close_call cs \<and> calls (snd (Release_range cf b w)) = calls w @ cs"
proof (induction b arbitrary: w)
  case Nil
  show ?case by simp
next
  case (Cons e b)
  show ?case
  proof (cases cf)
    case None
    then show ?thesis by simp
  next
    case (Some f)
    let ?w1 = "snd (call_close f (idleConn_ptr e) w)"
    from Cons [of ?w1] obtain cs where cs: "list_all is_close_call cs"
      and eq: "calls (snd (Release_range cf b ?w1)) = calls ?w1 @ cs"
      by blast
    let ?d = "close_call (idleConn_ptr e) (fst (call_close f (idleConn_ptr e) w))"
    from cs have "list_all is_close_call (?d # cs)" by simp
    moreover from eq Some have "calls (snd (Release_range cf (e # b) w)) = calls w @ ?d # cs"
      by (simp add: call_close_calls)
    ultimately show ?thesis by blast
  qed
qed

lemma Release_range_Returns: "fst (Release_range (Some f) b w) = Returns ()"
  by (induction b arbitrary: w) simp_all

lemma Release_pool_of_calls:
  "\<exists>cs. list_all is_close_call cs \<and> calls (snd (snd (Release (pool_of cfg es) w))) = calls w @ cs"
  using Release_range_calls [of "Close_fn cfg" es w]
  by (auto simp: Release_def pool_of_def split: prod.splits)

lemma Release_pool_of_outcome:
  "fst (Release (pool_of cfg es) w) =
     (if Close_fn cfg = None \<and> es \<noteq> [] then Panics nil_func_call else Returns ())"
proof (cases "Close_fn cfg")
  case None
  then show ?thesis
    by (cases es) (simp_all add: Release_def pool_of_def)
next
  case (Some f)
  with Release_range_Returns [of f es w] show ?thesis
    by (auto simp: Release_def pool_of_def split: prod.splits)
qed

lemma Release_pool_of_Returns:
  "Close_fn cfg = Some f \<Longrightarrow> fst (Release (pool_of cfg es) w) = Returns ()"
  using Release_range_Returns [of f es w]
  by (auto simp: Release_def pool_of_def split: prod.splits)

lemma Get_loop_calls:
  "Get_loop time_Now cPool cl b w = (out, rest, w') \<Longrightarrow>
   \<exists>cs. list_all is_close_call cs \<and>
     (calls w' = calls w @ cs \<or>
      (\<exists>c. calls w' = calls w @ cs @ [factory_call c None]) \<or>
      (\<exists>c e. calls w' = calls w @ cs @ [factory_call c (Some e)] \<and> out = Returns (nil, Some e)))"
proof (induction b arbitrary: w)
  case Nil
  show ?case
  proof (cases "cl \<or> factory cPool = None")
    case True
    with Nil have "calls w' = calls w @ []" by (auto split: if_splits)
    then show ?thesis by (intro exI [of _ "[]"]) simp
  next
    case False
    then obtain f where f: "factory cPool = Some f" and cl: "\<not> cl" by auto
    obtain c err w1 where cf: "call_factory f w = ((c, err), w1)"
      by (metis prod.exhaust)
    then have w1: "calls w1 = calls w @ [factory_call c err]" by (rule call_factory_calls)
    show ?thesis
    proof (cases err)
      case None
      with Nil f cl cf w1 have "calls w' = calls w @ [] @ [factory_call c None]" by auto
      then show ?thesis by (intro exI [of _ "[]"]) auto
    next
      case (Some e)
      with Nil f cl cf w1 have "calls w' = calls w @ [] @ [factory_call c (Some e)]"
        and "out = Returns (nil, Some e)" by auto
      then show ?thesis by (intro exI [of _ "[]"]) auto
    qed
  qed
next
  case (Cons e b)
  let ?w1 = "snd (read_clock time_Now w)"
  show ?case
  proof (cases "0 < idleTimeout cPool \<and> t e + idleTimeout cPool < fst (read_clock time_Now w)
                  \<and> close cPool \<noteq> None")
    case False
    with Cons.prems have "calls w' = calls w @ []"
      using read_clock_calls [of time_Now w]
      by (auto split: if_splits prod.splits option.splits)
    then show ?thesis by (intro exI [of _ "[]"]) simp
  next
    case True
    then obtain f where f: "close cPool = Some f" by auto
    let ?w2 = "snd (call_close f (idleConn_ptr e) ?w1)"
    let ?d = "close_call (idleConn_ptr e) (fst (call_close f (idleConn_ptr e) ?w1))"
    have w2: "calls ?w2 = calls w @ [?d]"
      by (simp add: call_close_calls read_clock_calls)
    from Cons.prems True f have "Get_loop time_Now cPool cl b ?w2 = (out, rest, w')"
      by (auto split: prod.splits)
    from Cons.IH [OF this] obtain cs where cs: "list_all is_close_call cs"
      and alt: "calls w' = calls ?w2 @ cs \<or>
      (\<exists>c. calls w' = calls ?w2 @ cs @ [factory_call c None]) \<or>
      (\<exists>c e. calls w' = calls ?w2 @ cs @ [factory_call c (Some e)] \<and> out = Returns (nil, Some e))"
      by blast
    from cs have "list_all is_close_call (?d # cs)" by simp
    moreover from alt w2 have "calls w' = calls w @ (?d # cs) \<or>
      (\<exists>c. calls w' = calls w @ (?d # cs) @ [factory_call c None]) \<or>
      (\<exists>c e. calls w' = calls w @ (?d # cs) @ [factory_call c (Some e)] \<and> out = Returns (nil, Some e))"
      by simp
    ultimately show ?thesis by blast
  qed
qed

subsection \<open>The value Get returns\<close>

text \<open>
  Once the loop of \<^verbatim>\<open>Get\<close> has dropped the entries in front, it goes on as if it had
  been started on the rest of the queue.
\<close>

lemma Get_loop_evicted:
  "evicted time_Now (idleTimeout cPool) (close cPool) pre w = Some w3 \<Longrightarrow>
   Get_loop time_Now cPool cl (pre @ b) w = Get_loop time_Now cPool cl b w3"
proof (induction pre arbitrary: w)
  case Nil
  then show ?case by simp
next
  case (Cons e pre)
  from Cons.prems obtain f where f: "close cPool = Some f"
    by (cases "close cPool") simp_all
  obtain now w1 where rc: "read_clock time_Now w = (now, w1)" by (metis prod.exhaust)
  from Cons.prems f rc have ex: "0 < idleTimeout cPool" "t e + idleTimeout cPool < now"
    and ev: "evicted time_Now (idleTimeout cPool) (close cPool) pre
               (snd (call_close f (idleConn_ptr e) w1)) = Some w3"
    by (auto split: if_splits)
  from ex f rc have "Get_loop time_Now cPool cl ((e # pre) @ b) w
      = Get_loop time_Now cPool cl (pre @ b) (snd (call_close f (idleConn_ptr e) w1))"
    by simp
  with Cons.IH [OF ev] show ?case by simp
qed

text \<open>
  A value that the loop of \<^verbatim>\<open>Get\<close> returns without a construct call is the value
  stored in the entry just in front of the entries it leaves.
\<close>

lemma Get_loop_unwraps:
  "Get_loop time_Now cPool cl b w = (Returns (v, None), rest, w') \<Longrightarrow>
   list_all is_close_call (new_calls w w') \<Longrightarrow>
   \<exists>pre e. b = pre @ e # rest \<and> v = conn e"
proof (induction b arbitrary: w)
  case Nil
  from Nil.prems(1) obtain f c w1 where "call_factory f w = ((c, None), w1)" and "w' = w1"
    by (auto split: if_splits option.splits prod.splits)
  then have "calls w' = calls w @ [factory_call c None]" by (simp add: call_factory_calls)
  with Nil.prems(2) show ?case by (simp add: new_calls_def)
next
  case (Cons e b)
  obtain now w1 where rc: "read_clock time_Now w = (now, w1)" by (metis prod.exhaust)
  show ?case
  proof (cases "0 < idleTimeout cPool \<and> t e + idleTimeout cPool < now")
    case False
    with Cons.prems(1) rc have "v = conn e" and "rest = b"
      by (auto split: if_splits)
    then have "e # b = [] @ e # rest \<and> v = conn e" by simp
    then show ?thesis by blast
  next
    case True
    with Cons.prems(1) rc obtain f where f: "close cPool = Some f"
      by (cases "close cPool") auto
    let ?w2 = "snd (call_close f (idleConn_ptr e) w1)"
    let ?d = "close_call (idleConn_ptr e) (fst (call_close f (idleConn_ptr e) w1))"
    from True Cons.prems(1) rc f
    have rec: "Get_loop time_Now cPool cl b ?w2 = (Returns (v, None), rest, w')" by simp
    have w2: "calls ?w2 = calls w @ [?d]"
      using read_clock_calls [of time_Now w] rc by (simp add: call_close_calls)
    from Get_loop_calls [OF rec] obtain ds where ds: "calls w' = calls ?w2 @ ds" by auto
    with w2 have "new_calls w w' = ?d # ds" and "new_calls ?w2 w' = ds"
      by (simp_all add: new_calls_def)
    then have "new_calls w w' = ?d # new_calls ?w2 w'" by simp
    with Cons.prems(2) have "list_all is_close_call (new_calls ?w2 w')" by simp
    from Cons.IH [OF rec this] obtain pre e' where "b = pre @ e' # rest" and "v = conn e'"
      by blast
    then have "e # b = (e # pre) @ e' # rest \<and> v = conn e'" by simp
    then show ?thesis by blast
  qed
qed

text \<open>
  Claim C10. \<^verbatim>\<open>Put\<close> of a non-nil value \<^verbatim>\<open>r\<close> into an open pool with room stores, at
  the back of the idle queue, an entry that holds \<^verbatim>\<open>r\<close> and the time read from the
  clock. A later \<^verbatim>\<open>Get\<close> that receives this entry before its idle timeout has passed
  returns exactly \<^verbatim>\<open>r\<close> with no error and leaves the entries that followed it: whatever
  entries \<open>pre\<close> are in front of it and \<open>rest\<close> behind it, when the loop of \<^verbatim>\<open>Get\<close>
  drops all of \<open>pre\<close> as expired (none, when the entry is at the head) and then reads a
  time that is not after the entry's time plus the timeout (or no timeout is set).
  And whenever a \<^verbatim>\<open>Get\<close> leaves exactly the entries behind this entry and returns a
  value it did not construct, that value is \<^verbatim>\<open>r\<close>.
\<close>

theorem Put_then_Get_same_value:
  assumes "length es < nat (MaxCap cfg)" and "r \<noteq> nil"
  shows "Put time_Now (pool_of cfg es) r w =
           (Returns None, pool_of cfg (es @ [idleConn r (fst (time_Now (host w)))]),
            snd (read_clock time_Now w))
         \<and> (\<forall>pre rest w2 w3.
               evicted time_Now (IdleTimeout cfg) (Close_fn cfg) pre w2 = Some w3
               \<and> (IdleTimeout cfg \<le> 0
                  \<or> fst (time_Now (host w3)) \<le> fst (time_Now (host w)) + IdleTimeout cfg) \<longrightarrow>
               fst (Get time_Now
                      (pool_of cfg (pre @ idleConn r (fst (time_Now (host w))) # rest)) w2)
                 = Returns (r, None)
               \<and> fst (snd (Get time_Now
                      (pool_of cfg (pre @ idleConn r (fst (time_Now (host w))) # rest)) w2))
                 = pool_of cfg rest)
         \<and> (\<forall>pre rest w2 w3 v.
               Get time_Now (pool_of cfg (pre @ idleConn r (fst (time_Now (host w))) # rest)) w2
                 = (Returns (v, None), pool_of cfg rest, w3)
               \<and> list_all is_close_call (new_calls w2 w3) \<longrightarrow> v = r)"
proof (intro conjI allI impI)
  show "Put time_Now (pool_of cfg es) r w =
           (Returns None, pool_of cfg (es @ [idleConn r (fst (time_Now (host w)))]),
            snd (read_clock time_Now w))"
    using assms by (rule Put_room)
next
  fix pre rest :: "'a idleConn list" and w2 w3 :: "('a, 'b) world"
  let ?e = "idleConn r (fst (time_Now (host w)))"
  assume h: "evicted time_Now (IdleTimeout cfg) (Close_fn cfg) pre w2 = Some w3
               \<and> (IdleTimeout cfg \<le> 0
                  \<or> fst (time_Now (host w3)) \<le> fst (time_Now (host w)) + IdleTimeout cfg)"
  then have "evicted time_Now (idleTimeout (pool_of cfg (pre @ ?e # rest)))
               (close (pool_of cfg (pre @ ?e # rest))) pre w2 = Some w3"
    by (simp add: pool_of_def)
  then have skip: "Get_loop time_Now (pool_of cfg (pre @ ?e # rest)) False (pre @ ?e # rest) w2
      = Get_loop time_Now (pool_of cfg (pre @ ?e # rest)) False (?e # rest) w3"
    by (rule Get_loop_evicted)
  from h have "Get_loop time_Now (pool_of cfg (pre @ ?e # rest)) False (?e # rest) w3
      = (Returns (r, None), rest, if 0 < IdleTimeout cfg then snd (read_clock time_Now w3) else w3)"
    by (auto simp: pool_of_def read_clock_def split: prod.splits)
  with skip have g: "Get time_Now (pool_of cfg (pre @ ?e # rest)) w2
      = (Returns (r, None), pool_of cfg rest,
         if 0 < IdleTimeout cfg then snd (read_clock time_Now w3) else w3)"
    by (simp add: Get_def pool_of_def)
  from g show "fst (Get time_Now (pool_of cfg (pre @ ?e # rest)) w2) = Returns (r, None)"
    by simp
  from g show "fst (snd (Get time_Now (pool_of cfg (pre @ ?e # rest)) w2)) = pool_of cfg rest"
    by simp
next
  fix pre rest :: "'a idleConn list" and w2 w3 :: "('a, 'b) world" and v :: "'a iface"
  let ?e = "idleConn r (fst (time_Now (host w)))"
  assume h: "Get time_Now (pool_of cfg (pre @ ?e # rest)) w2
                 = (Returns (v, None), pool_of cfg rest, w3)
               \<and> list_all is_close_call (new_calls w2 w3)"
  then obtain rest' where loop: "Get_loop time_Now (pool_of cfg (pre @ ?e # rest)) False
        (pre @ ?e # rest) w2 = (Returns (v, None), rest', w3)"
    and "pool_of cfg rest' = pool_of cfg rest"
    by (auto simp: Get_def pool_of_def split: prod.splits)
  then have same: "rest' = rest" by (simp add: pool_of_def)
  from h Get_loop_unwraps [OF loop] obtain pre' e' where
    eq: "pre @ ?e # rest = pre' @ e' # rest'" and v: "v = conn e'"
    by blast
  from eq same have "?e # rest = e' # rest"
    by (metis append_eq_append_conv length_Cons)
  with v show "v = r" by auto
qed

theorem Put_then_Get_same_value_witness:
  "length [idleConn (Val (0::nat)) 0] < nat (MaxCap (demo_config 1 2 5))
   \<and> Val 9 \<noteq> (nil :: nat iface)
   \<and> Put demo_clock (pool_of (demo_config 1 2 5) [idleConn (Val 0) 0]) (Val 9)
         \<lparr>host = (1, 4), calls = []\<rparr> =
       (Returns None, pool_of (demo_config 1 2 5) [idleConn (Val 0) 0, idleConn (Val 9) 4],
        \<lparr>host = (1, 4), calls = []\<rparr>)
   \<and> evicted demo_clock (IdleTimeout (demo_config 1 2 5)) (Close_fn (demo_config 1 2 5))
         [idleConn (Val 0) 0] \<lparr>host = (1, 6), calls = []\<rparr>
       = Some \<lparr>host = (1, 6), calls = [close_call (idleConn_ptr (idleConn (Val 0) 0)) None]\<rparr>
   \<and> fst (demo_clock (host \<lparr>host = (1::nat, 6::int),
              calls = [close_call (idleConn_ptr (idleConn (Val (0::nat)) 0)) None]\<rparr>))
         \<le> fst (demo_clock (host \<lparr>host = (1, 4), calls = ([] :: nat call list)\<rparr>))
            + IdleTimeout (demo_config 1 2 5)
   \<and> fst (Get demo_clock (pool_of (demo_config 1 2 5) [idleConn (Val 0) 0, idleConn (Val 9) 4])
              \<lparr>host = (1, 6), calls = []\<rparr>) = Returns (Val 9, None)
   \<and> fst (snd (Get demo_clock
              (pool_of (demo_config 1 2 5) [idleConn (Val 0) 0, idleConn (Val 9) 4])
              \<lparr>host = (1, 6), calls = []\<rparr>)) = pool_of (demo_config 1 2 5) []
   \<and> Get demo_clock (pool_of (demo_config 1 2 5) [idleConn (Val 0) 0, idleConn (Val 9) 4])
              \<lparr>host = (1, 6), calls = []\<rparr>
       = (Returns (Val 9, None), pool_of (demo_config 1 2 5) [],
          \<lparr>host = (1, 6), calls = [close_call (idleConn_ptr (idleConn (Val 0) 0)) None]\<rparr>)
   \<and> list_all is_close_call
         (new_calls \<lparr>host = (1::nat, 6::int), calls = []\<rparr>
            \<lparr>host = (1::nat, 6::int),
             calls = [close_call (idleConn_ptr (idleConn (Val (0::nat)) 0)) None]\<rparr>)"
proof -
  let ?w = "\<lparr>host = (1::nat, 4::int), calls = ([] :: nat call list)\<rparr>"
  let ?w2 = "\<lparr>host = (1::nat, 6::int), calls = ([] :: nat call list)\<rparr>"
  let ?w3 = "\<lparr>host = (1::nat, 6::int),
              calls = [close_call (idleConn_ptr (idleConn (Val (0::nat)) 0)) None]\<rparr>"
  have a: "length [idleConn (Val (0::nat)) 0] < nat (MaxCap (demo_config 1 2 5))"
    by (simp add: demo_config_def)
  have b: "Val 9 \<noteq> (nil :: nat iface)" by simp
  have c: "evicted demo_clock (IdleTimeout (demo_config 1 2 5)) (Close_fn (demo_config 1 2 5))
         [idleConn (Val 0) 0] ?w2 = Some ?w3"
    by (simp add: demo_defs)
  have d: "fst (demo_clock (host ?w3)) \<le> fst (demo_clock (host ?w)) + IdleTimeout (demo_config 1 2 5)"
    by (simp add: demo_config_def demo_clock_def)
  note th = Put_then_Get_same_value [where time_Now = demo_clock and w = ?w, OF a b]
  have tm: "fst (demo_clock (host ?w)) = 4" by (simp add: demo_clock_def)
  from th have p: "Put demo_clock (pool_of (demo_config 1 2 5) [idleConn (Val 0) 0]) (Val 9) ?w =
       (Returns None, pool_of (demo_config 1 2 5) [idleConn (Val 0) 0, idleConn (Val 9) 4], ?w)"
    by (simp add: demo_clock_def read_clock_def)
  from th [THEN conjunct2, THEN conjunct1, rule_format,
      of "[idleConn (Val 0) 0]" ?w2 ?w3 "[]"] c d
  have g: "fst (Get demo_clock
              (pool_of (demo_config 1 2 5) ([idleConn (Val 0) 0] @ idleConn (Val 9) (fst (demo_clock (host ?w))) # []))
              ?w2) = Returns (Val 9, None)
     \<and> fst (snd (Get demo_clock
              (pool_of (demo_config 1 2 5) ([idleConn (Val 0) 0] @ idleConn (Val 9) (fst (demo_clock (host ?w))) # []))
              ?w2)) = pool_of (demo_config 1 2 5) []"
    by blast
  have g1: "fst (Get demo_clock (pool_of (demo_config 1 2 5) [idleConn (Val 0) 0, idleConn (Val 9) 4])
              ?w2) = Returns (Val 9, None)"
    and g2: "fst (snd (Get demo_clock
              (pool_of (demo_config 1 2 5) [idleConn (Val 0) 0, idleConn (Val 9) 4])
              ?w2)) = pool_of (demo_config 1 2 5) []"
    using g unfolding tm by simp_all
  have g3: "Get demo_clock (pool_of (demo_config 1 2 5) [idleConn (Val 0) 0, idleConn (Val 9) 4])
              ?w2 = (Returns (Val 9, None), pool_of (demo_config 1 2 5) [], ?w3)"
    by (simp add: Get_def demo_defs)
  have g4: "list_all is_close_call (new_calls ?w2 ?w3)"
    by (simp add: new_calls_def)
  show ?thesis by (intro conjI a b p c d g1 g2 g3 g4)
qed

subsection \<open>Errors of the behaviours\<close>

lemma dropWhile_not_failed:
  "list_all (\<lambda>x. \<not> construct_failed x) cs \<Longrightarrow> dropWhile (\<lambda>x. \<not> construct_failed x) (cs @ ds)
     = dropWhile (\<lambda>x. \<not> construct_failed x) ds"
  by (induction cs) simp_all

lemma close_calls_not_failed: "list_all is_close_call cs \<Longrightarrow> list_all (\<lambda>x. \<not> construct_failed x) cs"
  by (induction cs) (auto elim: is_close_call.elims)

lemma close_calls_no_factory: "list_all is_close_call cs \<Longrightarrow> factory_call c err \<notin> set cs"
  by (induction cs) auto

lemma Get_error_returned:
  assumes "Get time_Now cPool w = (out, p', w')"
    and "factory_call c (Some e) \<in> set (new_calls w w')"
  shows "out = Returns (nil, Some e) \<and> after_failure (new_calls w w') = []"
proof (cases "conns cPool")
  case None
  with assms show ?thesis by (simp add: Get_def new_calls_def)
next
  case (Some ch)
  with assms(1) obtain rest where "Get_loop time_Now cPool (closed ch) (buf ch) w = (out, rest, w')"
    by (auto simp: Get_def split: prod.splits)
  from Get_loop_calls [OF this] obtain cs where cs: "list_all is_close_call cs"
    and alt: "calls w' = calls w @ cs \<or>
      (\<exists>c. calls w' = calls w @ cs @ [factory_call c None]) \<or>
      (\<exists>c e. calls w' = calls w @ cs @ [factory_call c (Some e)] \<and> out = Returns (nil, Some e))"
    by blast
  from cs have nf: "factory_call c (Some e) \<notin> set cs" by (rule close_calls_no_factory)
  from alt assms(2) nf obtain c' e' where
    eq: "calls w' = calls w @ cs @ [factory_call c' (Some e')]" and out: "out = Returns (nil, Some e')"
    by (auto simp: new_calls_def)
  from eq assms(2) nf have "c' = c" "e' = e" by (auto simp: new_calls_def)
  with eq out cs show ?thesis
    by (simp add: new_calls_def after_failure_def dropWhile_not_failed close_calls_not_failed)
qed

lemma Close_error_returned:
  assumes "Close cPool v w = (out, p', w')"
    and "close_call c (Some e) \<in> set (new_calls w w')"
  shows "out = Returns (Some e) \<and> new_calls w w' = [close_call v (Some e)]"
  using assms
  by (auto simp: Close_def new_calls_def call_close_def split: if_splits option.splits prod.splits)

lemma Put_error_returned:
  assumes "Put time_Now cPool v w = (out, p', w')"
    and "close_call c (Some e) \<in> set (new_calls w w')"
  shows "out = Returns (Some e) \<and> new_calls w w' = [close_call v (Some e)]"
  using assms
  by (auto simp: Put_def Close_def new_calls_def call_close_def read_clock_def
           split: if_splits option.splits prod.splits)


lemma NewChannelPool_loop_calls:
  "NewChannelPool_loop time_Now i n cPool w = (out, w') \<Longrightarrow>
   cPool = pool_of cfg es \<Longrightarrow>
   \<exists>fs. list_all (\<lambda>x. \<not> construct_failed x) fs \<and>
     (calls w' = calls w @ fs \<or>
      (\<exists>c e cs. calls w' = calls w @ fs @ factory_call c (Some e) # cs
          \<and> list_all is_close_call cs
          \<and> out = (if Close_fn cfg = None \<and> (es \<noteq> [] \<or> fs \<noteq> []) then Panics nil_func_call
                    else Returns (None, Some e))))"
proof (induction time_Now i n cPool w arbitrary: es rule: NewChannelPool_loop.induct)
  case (1 time_Now i n cPool w)
  note pool = "1.prems"(2)
  show ?case
  proof (cases "i < n \<and> factory cPool \<noteq> None")
    case False
    with "1.prems"(1) have "calls w' = calls w @ []"
      by (subst (asm) NewChannelPool_loop.simps) (auto split: if_splits)
    then show ?thesis by (intro exI [of _ "[]"]) simp
  next
    case True
    then obtain f where lt: "i < n" and f: "factory cPool = Some f" by auto
    obtain c err w1 where cf: "call_factory f w = ((c, err), w1)"
      by (metis prod.exhaust)
    then have w1: "calls w1 = calls w @ [factory_call c err]" by (rule call_factory_calls)
    show ?thesis
    proof (cases err)
      case (Some e)
      from Release_pool_of_calls [of cfg es w1] obtain cs where cs: "list_all is_close_call cs"
        and rel: "calls (snd (snd (Release cPool w1))) = calls w1 @ cs"
        unfolding pool by blast
      have ret: "fst (Release cPool w1) =
          (if Close_fn cfg = None \<and> es \<noteq> [] then Panics nil_func_call else Returns ())"
        unfolding pool by (rule Release_pool_of_outcome)
      from "1.prems"(1) lt f cf Some ret
      have "out = (if Close_fn cfg = None \<and> es \<noteq> [] then Panics nil_func_call
                   else Returns (None, Some e))"
        and "w' = snd (snd (Release cPool w1))"
        by (subst (asm) NewChannelPool_loop.simps,
            auto split: prod.splits outcome.splits if_splits)+
      with rel w1 Some cs have "calls w' = calls w @ [] @ factory_call c (Some e) # cs
          \<and> list_all is_close_call cs
          \<and> out = (if Close_fn cfg = None \<and> (es \<noteq> [] \<or> ([] :: 'a call list) \<noteq> [])
                    then Panics nil_func_call else Returns (None, Some e))"
        by simp
      then have "\<exists>c' e' cs. calls w' = calls w @ [] @ factory_call c' (Some e') # cs
          \<and> list_all is_close_call cs
          \<and> out = (if Close_fn cfg = None \<and> (es \<noteq> [] \<or> ([] :: 'a call list) \<noteq> [])
                    then Panics nil_func_call else Returns (None, Some e'))"
        by blast
      then show ?thesis by (intro exI [of _ "[]"] conjI disjI2) simp_all
    next
      case None
      obtain now w2 where rc: "read_clock time_Now w1 = (now, w2)" by (metis prod.exhaust)
      then have w2: "calls w2 = calls w @ [factory_call c None]"
        using w1 None read_clock_calls [of time_Now w1] by simp
      let ?ch = "\<lparr>buf = es, cap = nat (MaxCap cfg), closed = False\<rparr> :: 'a chan"
      show ?thesis
      proof (cases "length es < nat (MaxCap cfg)")
        case False
        with "1.prems"(1) lt f cf None rc have "w' = w2"
          unfolding pool
          by (subst (asm) NewChannelPool_loop.simps) (auto simp: pool_of_def)
        with w2 have "calls w' = calls w @ [factory_call c None]" by simp
        then show ?thesis by (intro exI [of _ "[factory_call c None]"]) simp
      next
        case room: True
        have eq: "cPool\<lparr>conns := Some (?ch\<lparr>buf := buf ?ch @ [idleConn c now]\<rparr>)\<rparr>
                = pool_of cfg (es @ [idleConn c now])"
          by (simp add: pool pool_of_def)
        from "1.prems"(1) lt f cf None rc room
        have rec: "NewChannelPool_loop time_Now (i + 1) n (pool_of cfg (es @ [idleConn c now])) w2
                     = (out, w')"
          unfolding pool
          by (subst (asm) NewChannelPool_loop.simps) (auto simp: pool_of_def)
        have "\<exists>fs. list_all (\<lambda>x. \<not> construct_failed x) fs \<and>
               (calls w' = calls w2 @ fs \<or>
                (\<exists>c' e cs. calls w' = calls w2 @ fs @ factory_call c' (Some e) # cs
                   \<and> list_all is_close_call cs
                   \<and> out = (if Close_fn cfg = None \<and> (es @ [idleConn c now] \<noteq> [] \<or> fs \<noteq> [])
                             then Panics nil_func_call else Returns (None, Some e))))"
        proof (rule "1.IH" [OF lt f cf [symmetric] refl None rc [symmetric], of ?ch])
          show "conns cPool = Some ?ch" by (simp add: pool pool_of_def)
          show "\<not> closed ?ch" by simp
          show "length (buf ?ch) < cap ?ch" using room by simp
          show "NewChannelPool_loop time_Now (i + 1) n
              (cPool\<lparr>conns := Some (?ch\<lparr>buf := buf ?ch @ [idleConn c now]\<rparr>)\<rparr>) w2
            = (out, w')"
            using rec eq by simp
          show "cPool\<lparr>conns := Some (?ch\<lparr>buf := buf ?ch @ [idleConn c now]\<rparr>)\<rparr>
              = pool_of cfg (es @ [idleConn c now])"
            by (rule eq)
        qed
        then obtain fs where fs: "list_all (\<lambda>x. \<not> construct_failed x) fs"
          and alt: "calls w' = calls w2 @ fs \<or>
                (\<exists>c' e cs. calls w' = calls w2 @ fs @ factory_call c' (Some e) # cs
                   \<and> list_all is_close_call cs
                   \<and> out = (if Close_fn cfg = None then Panics nil_func_call
                             else Returns (None, Some e)))"
          by auto
        from fs have "list_all (\<lambda>x. \<not> construct_failed x) (factory_call c None # fs)" by simp
        moreover from alt w2 have "calls w' = calls w @ (factory_call c None # fs) \<or>
                (\<exists>c' e cs. calls w' = calls w @ (factory_call c None # fs) @ factory_call c' (Some e) # cs
                   \<and> list_all is_close_call cs
                   \<and> out = (if Close_fn cfg = None \<and> (es \<noteq> [] \<or> factory_call c None # fs \<noteq> [])
                             then Panics nil_func_call else Returns (None, Some e)))"
          by simp
        ultimately show ?thesis by blast
      qed
    qed
  qed
qed


lemma hd_not_failed:
  "list_all (\<lambda>x. \<not> construct_failed x) fs \<Longrightarrow>
   (\<not> construct_failed (hd (fs @ factory_call c (Some e) # cs))) = (fs \<noteq> [])"
  by (cases fs) simp_all

lemma New_error_returned:
  assumes "NewChannelPool time_Now (Some cfg) w = (out, w')"
    and "factory_call c (Some e) \<in> set (new_calls w w')"
  shows "out = (if Close_fn cfg = None \<and> \<not> construct_failed (hd (new_calls w w'))
                then Panics nil_func_call else Returns (None, Some e))
         \<and> list_all is_close_call (after_failure (new_calls w w'))"
proof (cases "InitCap cfg \<le> 0 \<or> MaxCap cfg \<le> 0 \<or> InitCap cfg > MaxCap cfg")
  case True
  with assms(1) have "w' = w" by (simp add: NewChannelPool_def)
  with assms(2) show ?thesis by (simp add: new_calls_def)
next
  case False
  with assms(1) have "NewChannelPool_loop time_Now 0 (InitCap cfg) (pool_of cfg []) w = (out, w')"
    by (simp add: NewChannelPool_def pool_of_def make_chan_def)
  from NewChannelPool_loop_calls [OF this refl]
  obtain fs where fs: "list_all (\<lambda>x. \<not> construct_failed x) fs"
    and alt: "calls w' = calls w @ fs \<or>
      (\<exists>c e cs. calls w' = calls w @ fs @ factory_call c (Some e) # cs
          \<and> list_all is_close_call cs
          \<and> out = (if Close_fn cfg = None \<and> fs \<noteq> [] then Panics nil_func_call
                    else Returns (None, Some e)))"
    by auto
  from fs have nf: "factory_call c (Some e) \<notin> set fs" by (auto simp: list_all_iff)
  with alt assms(2) obtain c' e' cs where
    eq: "calls w' = calls w @ fs @ factory_call c' (Some e') # cs"
    and cs: "list_all is_close_call cs"
    and out: "out = (if Close_fn cfg = None \<and> fs \<noteq> [] then Panics nil_func_call
                    else Returns (None, Some e'))"
    by (auto simp: new_calls_def)
  from cs have "factory_call c (Some e) \<notin> set cs" by (rule close_calls_no_factory)
  with eq assms(2) nf have same: "c' = c" "e' = e" by (auto simp: new_calls_def)
  from eq same have nc: "new_calls w w' = fs @ factory_call c (Some e) # cs"
    by (simp add: new_calls_def)
  from fs have "(\<not> construct_failed (hd (new_calls w w'))) = (fs \<noteq> [])"
    unfolding nc by (rule hd_not_failed)
  with out same have "out = (if Close_fn cfg = None \<and> \<not> construct_failed (hd (new_calls w w'))
                then Panics nil_func_call else Returns (None, Some e))"
    by simp
  moreover from nc cs fs have "list_all is_close_call (after_failure (new_calls w w'))"
    by (simp add: after_failure_def dropWhile_not_failed)
  ultimately show ?thesis by simp
qed

text \<open>
  Claim C5, as amended. An error of the construct behaviour in \<^verbatim>\<open>Get\<close> is returned by
  \<^verbatim>\<open>Get\<close>, and the failed call is the last call \<^verbatim>\<open>Get\<close> makes. An error of the
  construct behaviour in \<^verbatim>\<open>NewChannelPool\<close> is returned by \<^verbatim>\<open>NewChannelPool\<close>, with
  one exception: when the configuration has no destroy behaviour (\<^verbatim>\<open>Close\<close> is nil) and
  a resource was built before the failed call, \<^verbatim>\<open>NewChannelPool\<close> panics in its
  \<^verbatim>\<open>Release\<close>. In both cases it makes destroy calls only after the failed call. An error of the destroy behaviour in \<^verbatim>\<open>Put\<close> or in \<^verbatim>\<open>Close\<close> is returned by
  that operation, and the failed call, on the value it was given, is the only call it
  makes. Nothing is said of the errors of the destroy calls that \<^verbatim>\<open>Get\<close> makes on expired
  entries or that the \<^verbatim>\<open>Release\<close> inside \<^verbatim>\<open>NewChannelPool\<close> makes: the code drops
  them.
\<close>

theorem errors_returned:
  "(Get time_Now cPool w = (out_g, p_g, w_g) \<and> factory_call c (Some e) \<in> set (new_calls w w_g)
      \<longrightarrow> out_g = Returns (nil, Some e) \<and> after_failure (new_calls w w_g) = [])
   \<and> (NewChannelPool time_Now (Some cfg) w = (out_n, w_n)
        \<and> factory_call c (Some e) \<in> set (new_calls w w_n)
      \<longrightarrow> out_n = (if Close_fn cfg = None \<and> \<not> construct_failed (hd (new_calls w w_n))
                    then Panics nil_func_call else Returns (None, Some e))
          \<and> list_all is_close_call (after_failure (new_calls w w_n)))
   \<and> (Put time_Now cPool v w = (out_p, p_p, w_p) \<and> close_call c (Some e) \<in> set (new_calls w w_p)
      \<longrightarrow> out_p = Returns (Some e) \<and> new_calls w w_p = [close_call v (Some e)])
   \<and> (Close cPool v w = (out_c, p_c, w_c) \<and> close_call c (Some e) \<in> set (new_calls w w_c)
      \<longrightarrow> out_c = Returns (Some e) \<and> new_calls w w_c = [close_call v (Some e)])"
  using Get_error_returned [of time_Now cPool w out_g p_g w_g c e]
    New_error_returned [of time_Now cfg w out_n w_n c e]
    Put_error_returned [of time_Now cPool v w out_p p_p w_p c e]
    Close_error_returned [of cPool v w out_c p_c w_c c e]
  by blast

subsection \<open>The host whose behaviours fail\<close>

lemma NewChannelPool_flaky:
  "NewChannelPool demo_clock (Some (flaky_config 5 1 1 d)) demo_world =
     (Returns (Some (pool_of (flaky_config 5 1 1 d) [idleConn (Val 0) 0]), None),
      \<lparr>host = (1, 0), calls = [factory_call (Val 0) None]\<rparr>)"
  by (simp add: NewChannelPool_def NewChannelPool_loop.simps demo_defs)

text \<open>
  Claim C5 as it is written, for every destroy call made during \<^verbatim>\<open>Get\<close>, fails: here
  the destroy call on the expired entry fails, and \<^verbatim>\<open>Get\<close> goes on, builds resource 1
  and returns it with no error.
\<close>

theorem Get_discards_destroy_error_counterexample:
  "NewChannelPool demo_clock (Some (flaky_config 5 1 1 5)) demo_world =
     (Returns (Some (pool_of (flaky_config 5 1 1 5) [idleConn (Val 0) 0]), None),
      \<lparr>host = (1, 0), calls = [factory_call (Val 0) None]\<rparr>)
   \<and> Get demo_clock (pool_of (flaky_config 5 1 1 5) [idleConn (Val 0) 0])
       \<lparr>host = (1, 6), calls = [factory_call (Val 0) None]\<rparr> =
     (Returns (Val 1, None), pool_of (flaky_config 5 1 1 5) [],
      \<lparr>host = (2, 6),
       calls = [factory_call (Val 0) None,
                close_call (idleConn_ptr (idleConn (Val 0) 0)) (Some (HostError ''close failed'')),
                factory_call (Val 1) None]\<rparr>)"
proof (intro conjI)
  show "NewChannelPool demo_clock (Some (flaky_config 5 1 1 5)) demo_world =
     (Returns (Some (pool_of (flaky_config 5 1 1 5) [idleConn (Val 0) 0]), None),
      \<lparr>host = (1, 0), calls = [factory_call (Val 0) None]\<rparr>)"
    by (rule NewChannelPool_flaky)
  show "Get demo_clock (pool_of (flaky_config 5 1 1 5) [idleConn (Val 0) 0])
       \<lparr>host = (1, 6), calls = [factory_call (Val 0) None]\<rparr> =
     (Returns (Val 1, None), pool_of (flaky_config 5 1 1 5) [],
      \<lparr>host = (2, 6),
       calls = [factory_call (Val 0) None,
                close_call (idleConn_ptr (idleConn (Val 0) 0)) (Some (HostError ''close failed'')),
                factory_call (Val 1) None]\<rparr>)"
    by (simp add: Get_def demo_defs)
qed

lemma Get_flaky:
  "Get demo_clock (pool_of (flaky_config 1 1 1 0) []) \<lparr>host = (1, 0), calls = []\<rparr> =
     (Returns (nil, Some (HostError ''factory failed'')), pool_of (flaky_config 1 1 1 0) [],
      \<lparr>host = (1, 0), calls = [factory_call nil (Some (HostError ''factory failed''))]\<rparr>)"
  by (simp add: Get_def demo_defs)

lemma New_flaky:
  "NewChannelPool demo_clock (Some (flaky_config 1 2 2 0)) demo_world =
     (Returns (None, Some (HostError ''factory failed'')),
      \<lparr>host = (1, 0),
       calls = [factory_call (Val 0) None, factory_call nil (Some (HostError ''factory failed'')),
                close_call (idleConn_ptr (idleConn (Val 0) 0)) (Some (HostError ''close failed''))]\<rparr>)"
  by (simp add: NewChannelPool_def NewChannelPool_loop.simps Release_def demo_defs)

text \<open>
  The same configuration without a destroy behaviour: the second construct call fails, the
  \<^verbatim>\<open>Release\<close> inside \<^verbatim>\<open>NewChannelPool\<close> calls the nil \<^verbatim>\<open>closeFunc\<close> on the entry
  built before, and \<^verbatim>\<open>NewChannelPool\<close> panics.
\<close>

lemma New_nil_close:
  "NewChannelPool demo_clock (Some ((flaky_config 1 2 2 0)\<lparr>Close_fn := None\<rparr>)) demo_world =
     (Panics nil_func_call,
      \<lparr>host = (1, 0),
       calls = [factory_call (Val 0) None, factory_call nil (Some (HostError ''factory failed''))]\<rparr>)"
  by (simp add: NewChannelPool_def NewChannelPool_loop.simps Release_def demo_defs)

lemma Put_flaky:
  "Put demo_clock (pool_of (flaky_config 1 1 1 0) [idleConn (Val 0) 0]) (Val 3)
       \<lparr>host = (1, 0), calls = []\<rparr> =
     (Returns (Some (HostError ''close failed'')), pool_of (flaky_config 1 1 1 0) [idleConn (Val 0) 0],
      \<lparr>host = (1, 0), calls = [close_call (Val 3) (Some (HostError ''close failed''))]\<rparr>)"
  by (simp add: Put_def Close_def demo_defs)

lemma Close_flaky:
  "Close (pool_of (flaky_config 1 1 1 0) [idleConn (Val 0) 0]) (Val 4)
       \<lparr>host = (1, 0), calls = []\<rparr> =
     (Returns (Some (HostError ''close failed'')), pool_of (flaky_config 1 1 1 0) [idleConn (Val 0) 0],
      \<lparr>host = (1, 0), calls = [close_call (Val 4) (Some (HostError ''close failed''))]\<rparr>)"
  by (simp add: Close_def demo_defs)


theorem errors_returned_witness:
  "(Get demo_clock (pool_of (flaky_config 1 1 1 0) []) \<lparr>host = (1, 0), calls = []\<rparr> =
      (Returns (nil, Some (HostError ''factory failed'')), pool_of (flaky_config 1 1 1 0) [],
       \<lparr>host = (1, 0), calls = [factory_call nil (Some (HostError ''factory failed''))]\<rparr>)
    \<and> factory_call nil (Some (HostError ''factory failed''))
        \<in> set (new_calls \<lparr>host = (1, 0), calls = []\<rparr>
             \<lparr>host = (1::nat, 0::int), calls = [factory_call (nil :: nat iface) (Some (HostError ''factory failed''))]\<rparr>)
    \<and> after_failure (new_calls \<lparr>host = (1, 0), calls = []\<rparr>
             \<lparr>host = (1::nat, 0::int), calls = [factory_call (nil :: nat iface) (Some (HostError ''factory failed''))]\<rparr>) = [])
   \<and> (NewChannelPool demo_clock (Some (flaky_config 1 2 2 0)) demo_world =
      (Returns (None, Some (HostError ''factory failed'')),
       \<lparr>host = (1, 0),
        calls = [factory_call (Val 0) None, factory_call nil (Some (HostError ''factory failed'')),
                 close_call (idleConn_ptr (idleConn (Val 0) 0)) (Some (HostError ''close failed''))]\<rparr>)
    \<and> Close_fn (flaky_config 1 2 2 0) = Some failing_close
    \<and> factory_call nil (Some (HostError ''factory failed''))
        \<in> set (new_calls demo_world
             \<lparr>host = (1, 0),
              calls = [factory_call (Val 0) None, factory_call nil (Some (HostError ''factory failed'')),
                 close_call (idleConn_ptr (idleConn (Val 0) 0)) (Some (HostError ''close failed''))]\<rparr>)
    \<and> list_all is_close_call (after_failure (new_calls demo_world
             \<lparr>host = (1, 0),
              calls = [factory_call (Val 0) None, factory_call nil (Some (HostError ''factory failed'')),
                 close_call (idleConn_ptr (idleConn (Val 0) 0)) (Some (HostError ''close failed''))]\<rparr>)))
   \<and> (Put demo_clock (pool_of (flaky_config 1 1 1 0) [idleConn (Val 0) 0]) (Val 3)
        \<lparr>host = (1, 0), calls = []\<rparr> =
      (Returns (Some (HostError ''close failed'')), pool_of (flaky_config 1 1 1 0) [idleConn (Val 0) 0],
       \<lparr>host = (1, 0), calls = [close_call (Val 3) (Some (HostError ''close failed''))]\<rparr>)
    \<and> new_calls \<lparr>host = (1, 0), calls = []\<rparr>
          \<lparr>host = (1::nat, 0::int), calls = [close_call (Val (3::nat)) (Some (HostError ''close failed''))]\<rparr>
        = [close_call (Val 3) (Some (HostError ''close failed''))])
   \<and> (Close (pool_of (flaky_config 1 1 1 0) [idleConn (Val 0) 0]) (Val 4)
        \<lparr>host = (1, 0), calls = []\<rparr> =
      (Returns (Some (HostError ''close failed'')), pool_of (flaky_config 1 1 1 0) [idleConn (Val 0) 0],
       \<lparr>host = (1, 0), calls = [close_call (Val 4) (Some (HostError ''close failed''))]\<rparr>)
    \<and> new_calls \<lparr>host = (1, 0), calls = []\<rparr>
          \<lparr>host = (1::nat, 0::int), calls = [close_call (Val (4::nat)) (Some (HostError ''close failed''))]\<rparr>
        = [close_call (Val 4) (Some (HostError ''close failed''))])"
proof -
  let ?fe = "HostError ''factory failed''" and ?ce = "HostError ''close failed''"
  let ?w = "\<lparr>host = (1::nat, 0::int), calls = ([] :: nat call list)\<rparr>"
  let ?wg = "\<lparr>host = (1::nat, 0::int), calls = [factory_call (nil :: nat iface) (Some ?fe)]\<rparr>"
  let ?wn = "\<lparr>host = (1::nat, 0::int),
        calls = [factory_call (Val 0) None, factory_call nil (Some ?fe),
                 close_call (idleConn_ptr (idleConn (Val (0::nat)) 0)) (Some ?ce)]\<rparr>"
  let ?wp = "\<lparr>host = (1::nat, 0::int), calls = [close_call (Val (3::nat)) (Some ?ce)]\<rparr>"
  have g1: "Get demo_clock (pool_of (flaky_config 1 1 1 0) []) ?w =
      (Returns (nil, Some ?fe), pool_of (flaky_config 1 1 1 0) [], ?wg)"
    by (rule Get_flaky)
  have g2: "factory_call nil (Some ?fe) \<in> set (new_calls ?w ?wg)"
    by (simp add: new_calls_def)
  have g3: "after_failure (new_calls ?w ?wg) = []"
    using g1 g2
      errors_returned [where time_Now = demo_clock and cPool = "pool_of (flaky_config 1 1 1 0) []"
        and w = ?w and w_g = ?wg and c = nil and e = ?fe, THEN conjunct1]
    by blast
  have n1: "NewChannelPool demo_clock (Some (flaky_config 1 2 2 0)) demo_world =
      (Returns (None, Some ?fe), ?wn)"
    by (rule New_flaky)
  have n2: "Close_fn (flaky_config 1 2 2 0) = Some failing_close"
    by (simp add: flaky_config_def)
  have n3: "factory_call nil (Some ?fe) \<in> set (new_calls demo_world ?wn)"
    by (simp add: new_calls_def demo_world_def)
  have n4: "list_all is_close_call (after_failure (new_calls demo_world ?wn))"
    using n1 n2 n3
      errors_returned [where time_Now = demo_clock and cfg = "flaky_config 1 2 2 0"
        and w = demo_world and w_n = ?wn and c = nil and e = ?fe,
        THEN conjunct2, THEN conjunct1]
    by blast
  have p1: "Put demo_clock (pool_of (flaky_config 1 1 1 0) [idleConn (Val 0) 0]) (Val 3) ?w =
      (Returns (Some ?ce), pool_of (flaky_config 1 1 1 0) [idleConn (Val 0) 0], ?wp)"
    by (rule Put_flaky)
  have p2: "close_call (Val 3) (Some ?ce) \<in> set (new_calls ?w ?wp)"
    by (simp add: new_calls_def)
  have p3: "new_calls ?w ?wp = [close_call (Val 3) (Some ?ce)]"
    using p1 p2
      errors_returned [where time_Now = demo_clock
        and cPool = "pool_of (flaky_config 1 1 1 0) [idleConn (Val 0) 0]"
        and w = ?w and w_p = ?wp and c = "Val 3" and e = ?ce and v = "Val 3",
        THEN conjunct2, THEN conjunct2, THEN conjunct1]
    by blast
  let ?wc = "\<lparr>host = (1::nat, 0::int), calls = [close_call (Val (4::nat)) (Some ?ce)]\<rparr>"
  have c1: "Close (pool_of (flaky_config 1 1 1 0) [idleConn (Val 0) 0]) (Val 4) ?w =
      (Returns (Some ?ce), pool_of (flaky_config 1 1 1 0) [idleConn (Val 0) 0], ?wc)"
    by (rule Close_flaky)
  have c2: "close_call (Val 4) (Some ?ce) \<in> set (new_calls ?w ?wc)"
    by (simp add: new_calls_def)
  have c3: "new_calls ?w ?wc = [close_call (Val 4) (Some ?ce)]"
    using c1 c2
      errors_returned [where cPool = "pool_of (flaky_config 1 1 1 0) [idleConn (Val 0) 0]"
        and w = ?w and w_c = ?wc and c = "Val 4" and e = ?ce and v = "Val 4",
        THEN conjunct2, THEN conjunct2, THEN conjunct2]
    by blast
  show ?thesis by (intro conjI g1 g2 g3 n1 n2 n3 n4 p1 p3 c1 c3)
qed

subsection \<open>What the code does after Release, and what it hands to the destroy behaviour\<close>

text \<open>
  After \<^verbatim>\<open>Release\<close> the fields \<^verbatim>\<open>conns\<close>, \<^verbatim>\<open>close\<close> and \<^verbatim>\<open>factory\<close> are nil:
  \<^verbatim>\<open>Put\<close> of any non-nil value panics, and so does another \<^verbatim>\<open>Release\<close>.
\<close>

lemma Put_released:
  assumes "Release cPool w = (out, p1, w1)" and "c \<noteq> nil"
  shows "Put time_Now p1 c w2 = (Panics nil_func_call, p1, w2)"
proof -
  from assms(1) have "conns p1 = None" and "close p1 = None"
    by (auto simp: Release_def Let_def split: option.splits if_splits prod.splits)
  with assms(2) show ?thesis by (simp add: Put_def Close_def)
qed

lemma Release_again:
  assumes "Release cPool w = (out, p1, w1)"
  shows "Release p1 w2 = (Panics ''close of nil channel'', p1, w2)"
proof -
  from assms have "conns p1 = None" and "close p1 = None" and "factory p1 = None"
    by (auto simp: Release_def Let_def split: option.splits if_splits prod.splits)
  then show ?thesis by (simp add: Release_def)
qed

text \<open>
  Claim C1 says that \<^verbatim>\<open>Put(r)\<close> after \<^verbatim>\<open>Release\<close> calls the destroy behaviour on
  \<^verbatim>\<open>r\<close> and returns its result. In the code \<^verbatim>\<open>Release\<close> sets the field
  \<^verbatim>\<open>close\<close> to nil, and \<^verbatim>\<open>Put\<close> on a released pool goes to \<^verbatim>\<open>Close\<close>, which
  calls that field: the program that builds a pool with \<^verbatim>\<open>InitCap = MaxCap = 1\<close>,
  releases it and puts resource 0 back panics in \<^verbatim>\<open>Put\<close>, and the destroy behaviour is
  not called on resource 0.
\<close>

theorem Put_after_Release_panics:
  "NewChannelPool demo_clock (Some (demo_config 1 1 0)) demo_world =
     (Returns (Some (pool_of (demo_config 1 1 0) [idleConn (Val 0) 0]), None),
      \<lparr>host = (1, 0), calls = [factory_call (Val 0) None]\<rparr>)
   \<and> Release (pool_of (demo_config 1 1 0) [idleConn (Val 0) 0])
       \<lparr>host = (1, 0), calls = [factory_call (Val 0) None]\<rparr> =
     (Returns (), released (demo_config 1 1 0),
      \<lparr>host = (1, 0),
       calls = [factory_call (Val 0) None, close_call (idleConn_ptr (idleConn (Val 0) 0)) None]\<rparr>)
   \<and> Put demo_clock (released (demo_config 1 1 0)) (Val 0)
       \<lparr>host = (1, 0),
        calls = [factory_call (Val 0) None, close_call (idleConn_ptr (idleConn (Val 0) 0)) None]\<rparr> =
     (Panics nil_func_call, released (demo_config 1 1 0),
      \<lparr>host = (1, 0),
       calls = [factory_call (Val 0) None, close_call (idleConn_ptr (idleConn (Val 0) 0)) None]\<rparr>)"
proof (intro conjI)
  show "NewChannelPool demo_clock (Some (demo_config 1 1 0)) demo_world =
     (Returns (Some (pool_of (demo_config 1 1 0) [idleConn (Val 0) 0]), None),
      \<lparr>host = (1, 0), calls = [factory_call (Val 0) None]\<rparr>)"
    by (rule NewChannelPool_demo)
  show "Release (pool_of (demo_config 1 1 0) [idleConn (Val 0) 0])
       \<lparr>host = (1, 0), calls = [factory_call (Val 0) None]\<rparr> =
     (Returns (), released (demo_config 1 1 0),
      \<lparr>host = (1, 0),
       calls = [factory_call (Val 0) None, close_call (idleConn_ptr (idleConn (Val 0) 0)) None]\<rparr>)"
    by (rule Release_demo)
  show "Put demo_clock (released (demo_config 1 1 0)) (Val 0)
       \<lparr>host = (1, 0),
        calls = [factory_call (Val 0) None, close_call (idleConn_ptr (idleConn (Val 0) 0)) None]\<rparr> =
     (Panics nil_func_call, released (demo_config 1 1 0),
      \<lparr>host = (1, 0),
       calls = [factory_call (Val 0) None, close_call (idleConn_ptr (idleConn (Val 0) 0)) None]\<rparr>)"
    by (simp add: Put_def Close_def released_def)
qed

text \<open>
  Claim C2 says that a second \<^verbatim>\<open>Release\<close> is well defined and does not crash. In the code
  the first \<^verbatim>\<open>Release\<close> sets \<^verbatim>\<open>conns\<close> to nil and the second one calls the builtin
  \<^verbatim>\<open>close\<close> on that nil channel, without the test for nil that \<^verbatim>\<open>Get\<close> and
  \<^verbatim>\<open>Put\<close> make: it panics.
\<close>

theorem Release_twice_panics:
  "Release (pool_of (demo_config 1 1 0) [idleConn (Val 0) 0])
       \<lparr>host = (1, 0), calls = [factory_call (Val 0) None]\<rparr> =
     (Returns (), released (demo_config 1 1 0),
      \<lparr>host = (1, 0),
       calls = [factory_call (Val 0) None, close_call (idleConn_ptr (idleConn (Val 0) 0)) None]\<rparr>)
   \<and> Release (released (demo_config 1 1 0))
       \<lparr>host = (1, 0),
        calls = [factory_call (Val 0) None, close_call (idleConn_ptr (idleConn (Val 0) 0)) None]\<rparr> =
     (Panics ''close of nil channel'', released (demo_config 1 1 0),
      \<lparr>host = (1, 0),
       calls = [factory_call (Val 0) None, close_call (idleConn_ptr (idleConn (Val 0) 0)) None]\<rparr>)"
proof (intro conjI)
  show "Release (pool_of (demo_config 1 1 0) [idleConn (Val 0) 0])
       \<lparr>host = (1, 0), calls = [factory_call (Val 0) None]\<rparr> =
     (Returns (), released (demo_config 1 1 0),
      \<lparr>host = (1, 0),
       calls = [factory_call (Val 0) None, close_call (idleConn_ptr (idleConn (Val 0) 0)) None]\<rparr>)"
    by (rule Release_demo)
  show "Release (released (demo_config 1 1 0))
       \<lparr>host = (1, 0),
        calls = [factory_call (Val 0) None, close_call (idleConn_ptr (idleConn (Val 0) 0)) None]\<rparr> =
     (Panics ''close of nil channel'', released (demo_config 1 1 0),
      \<lparr>host = (1, 0),
       calls = [factory_call (Val 0) None, close_call (idleConn_ptr (idleConn (Val 0) 0)) None]\<rparr>)"
    by (simp add: Release_def released_def)
qed

text \<open>
  The loop of \<^verbatim>\<open>Release\<close> makes one destroy call for each entry left, in the order of
  the queue, and each call receives the pointer to the entry.
\<close>

lemma Release_range_wrappers:
  "\<exists>errs. length errs = length b \<and>
     calls (snd (Release_range (Some f) b w))
       = calls w @ map2 (\<lambda>e err. close_call (idleConn_ptr e) err) b errs"
proof (induction b arbitrary: w)
  case Nil
  show ?case by simp
next
  case (Cons e b)
  let ?w1 = "snd (call_close f (idleConn_ptr e) w)"
  from Cons [of ?w1] obtain errs where "length errs = length b"
    and "calls (snd (Release_range (Some f) b ?w1))
       = calls ?w1 @ map2 (\<lambda>e err. close_call (idleConn_ptr e) err) b errs"
    by blast
  then have "length (fst (call_close f (idleConn_ptr e) w) # errs) = length (e # b)
    \<and> calls (snd (Release_range (Some f) (e # b) w))
       = calls w @ map2 (\<lambda>e err. close_call (idleConn_ptr e) err) (e # b)
                     (fst (call_close f (idleConn_ptr e) w) # errs)"
    by (simp add: call_close_calls)
  then show ?case by blast
qed

text \<open>
  Claim C3 says that \<^verbatim>\<open>Release\<close> calls the destroy behaviour on the resource stored in
  every idle entry. In the code the loop of \<^verbatim>\<open>Release\<close> passes \<^verbatim>\<open>wrapConn\<close>, the
  pointer to the idle entry, where \<^verbatim>\<open>Put\<close> and \<^verbatim>\<open>Close\<close> pass the resource: in the
  pool that holds resource 0, the one call of the destroy behaviour receives the entry and
  none receives resource 0.
\<close>

theorem Release_destroys_wrapper:
  "new_calls \<lparr>host = (1, 0), calls = [factory_call (Val 0) None]\<rparr>
     (snd (snd (Release (pool_of (demo_config 1 1 0) [idleConn (Val 0) 0])
        \<lparr>host = (1, 0), calls = [factory_call (Val 0) None]\<rparr>)))
     = [close_call (idleConn_ptr (idleConn (Val 0) 0)) None]
   \<and> close_call (idleConn_ptr (idleConn (Val 0) 0)) None \<noteq> close_call (Val 0) None"
  unfolding Release_demo new_calls_def by simp

text \<open>
  An expired head entry in \<^verbatim>\<open>Get\<close>: one destroy call, on the pointer to the entry, whose
  result is dropped; then the loop goes on with the rest of the queue.
\<close>

lemma Get_loop_expired:
  assumes "0 < idleTimeout cPool" and "close cPool = Some f"
    and "t e + idleTimeout cPool < fst (read_clock time_Now w)"
  shows "Get_loop time_Now cPool cl (e # b) w =
           Get_loop time_Now cPool cl b
             (snd (call_close f (idleConn_ptr e) (snd (read_clock time_Now w))))"
  using assms by (cases "read_clock time_Now w") simp

text \<open>
  Claim C4 says that \<^verbatim>\<open>Get\<close> calls the destroy behaviour on the resource of an idle
  entry that is older than the idle timeout. The code does drop the entry, call the destroy
  behaviour once and go round the loop again, but the call receives \<^verbatim>\<open>wrapConn\<close>, the
  pointer to the entry, not \<^verbatim>\<open>wrapConn.conn\<close>: with a timeout of 5 and resource 0 stored
  at time 0, a \<^verbatim>\<open>Get\<close> at time 6 calls the destroy behaviour on the entry, builds
  resource 1 and returns it.
\<close>

theorem Get_destroys_wrapper:
  "NewChannelPool demo_clock (Some (demo_config 1 1 5)) demo_world =
     (Returns (Some (pool_of (demo_config 1 1 5) [idleConn (Val 0) 0]), None),
      \<lparr>host = (1, 0), calls = [factory_call (Val 0) None]\<rparr>)
   \<and> Get demo_clock (pool_of (demo_config 1 1 5) [idleConn (Val 0) 0])
       \<lparr>host = (1, 6), calls = [factory_call (Val 0) None]\<rparr> =
     (Returns (Val 1, None), pool_of (demo_config 1 1 5) [],
      \<lparr>host = (2, 6),
       calls = [factory_call (Val 0) None, close_call (idleConn_ptr (idleConn (Val 0) 0)) None,
                factory_call (Val 1) None]\<rparr>)"
proof (intro conjI)
  show "NewChannelPool demo_clock (Some (demo_config 1 1 5)) demo_world =
     (Returns (Some (pool_of (demo_config 1 1 5) [idleConn (Val 0) 0]), None),
      \<lparr>host = (1, 0), calls = [factory_call (Val 0) None]\<rparr>)"
    by (rule NewChannelPool_demo)
  show "Get demo_clock (pool_of (demo_config 1 1 5) [idleConn (Val 0) 0])
       \<lparr>host = (1, 6), calls = [factory_call (Val 0) None]\<rparr> =
     (Returns (Val 1, None), pool_of (demo_config 1 1 5) [],
      \<lparr>host = (2, 6),
       calls = [factory_call (Val 0) None, close_call (idleConn_ptr (idleConn (Val 0) 0)) None,
                factory_call (Val 1) None]\<rparr>)"
    by (simp add: Get_def demo_defs)
qed

end
